theory Spec2Isabelle
  imports Complex_Main "HOL-Library.Sublist"
begin

section \<open>Python string primitives used by the segmenters\<close>

text \<open>
  Narration texts are Python \<open>str\<close> values. They are modelled as \<open>string\<close>, one
  \<open>char\<close> per code point, for texts whose code points lie below 256. Python's
  \<open>str.isspace\<close>, \<open>str.strip\<close>, \<open>str.split\<close> and the regular expression class
  \<open>\s\<close> all use the same whitespace test; below 256 it holds for the code points
  9 to 13, 28 to 32, 133 and 160.
\<close>

definition isspace :: "char \<Rightarrow> bool" where
  "isspace c \<longleftrightarrow> c \<in> {CHR 0x09, CHR 0x0A, CHR 0x0B, CHR 0x0C, CHR 0x0D,
                     CHR 0x1C, CHR 0x1D, CHR 0x1E, CHR 0x1F, CHR 0x20, CHR 0x85, CHR 0xA0}"

text \<open>\<open>s.strip()\<close>: whitespace removed at both ends.\<close>

definition py_strip :: "string \<Rightarrow> string" where
  "py_strip s = rev (dropWhile isspace (rev (dropWhile isspace s)))"

text \<open>\<open>s.replace('\n', ' ')\<close>.\<close>

definition replace_nl :: "string \<Rightarrow> string" where
  "replace_nl s = map (\<lambda>c. if c = CHR 0x0A then CHR 0x20 else c) s"

text \<open>
  \<open>s.replace('  ', ' ')\<close>: one left-to-right pass over non-overlapping occurrences, so
  three spaces in a row become two.
\<close>

fun replace_dbl :: "string \<Rightarrow> string" where
  "replace_dbl [] = []"
| "replace_dbl [c] = [c]"
| "replace_dbl (c # d # cs) =
     (if c = CHR 0x20 \<and> d = CHR 0x20 then CHR 0x20 # replace_dbl cs
      else c # replace_dbl (d # cs))"

text \<open>The normalisation both segmenters and the formatter start with.\<close>

definition limpar :: "string \<Rightarrow> string" where
  "limpar texto = replace_dbl (replace_nl (py_strip texto))"

text \<open>
  \<open>s.split()\<close>: the maximal runs of non-whitespace characters, in order. The first
  argument is the word being read.
\<close>

fun split_acc :: "string \<Rightarrow> string \<Rightarrow> string list" where
  "split_acc w [] = (if w = [] then [] else [w])"
| "split_acc w (c # cs) =
     (if isspace c then (if w = [] then split_acc [] cs else w # split_acc [] cs)
      else split_acc (w @ [c]) cs)"

definition py_split :: "string \<Rightarrow> string list" where
  "py_split s = split_acc [] s"

text \<open>\<open>sep.join(xs)\<close>.\<close>

fun py_join :: "string \<Rightarrow> string list \<Rightarrow> string" where
  "py_join sep [] = []"
| "py_join sep [x] = x"
| "py_join sep (x # y # ys) = x @ sep @ py_join sep (y # ys)"

text \<open>\<open>s[:n]\<close> for an integer \<open>n\<close>; a negative \<open>n\<close> counts from the end.\<close>

definition slice_to :: "string \<Rightarrow> int \<Rightarrow> string" where
  "slice_to s n = (if 0 \<le> n then take (nat n) s else take (nat (int (length s) + n)) s)"

text \<open>
  \<open>re.split(r'(?<=[.!?])\s+', s)\<close>: the text is cut at every maximal whitespace run
  that directly follows a full stop, an exclamation mark or a question mark; the run is
  dropped. The first argument is the piece being read.
\<close>

definition is_fim_frase :: "char \<Rightarrow> bool" where
  "is_fim_frase c \<longleftrightarrow> c = CHR ''.'' \<or> c = CHR ''!'' \<or> c = CHR ''?''"

function re_split_frases :: "string \<Rightarrow> string \<Rightarrow> string list" where
  "re_split_frases cur [] = [cur]"
| "re_split_frases cur [c] = [cur @ [c]]"
| "re_split_frases cur (c # d # cs) =
     (if is_fim_frase c \<and> isspace d
      then (cur @ [c]) # re_split_frases [] (dropWhile isspace cs)
      else re_split_frases (cur @ [c]) (d # cs))"
  by pat_completeness auto
termination
  by (relation "measure (\<lambda>(cur, s). length s)")
     (auto simp: le_imp_less_Suc length_dropWhile_le less_Suc_eq_le intro: le_SucI)

section \<open>The subtitle segmenter (pptx\_handler.py)\<close>

text \<open>
  The loops of \<open>_dividir_texto_segmentos_srt\<close> carry the pair
  \<open>(segmentos, segmento_atual)\<close>. \<open>max_chars\<close> is a Python \<open>int\<close>.
\<close>

definition guardar :: "string list \<Rightarrow> string \<Rightarrow> string list" where
  "guardar segmentos segmento_atual =
     (if segmento_atual \<noteq> [] then segmentos @ [segmento_atual] else segmentos)"

fun palavras_srt :: "int \<Rightarrow> string list \<Rightarrow> string list \<times> string \<Rightarrow> string list \<times> string" where
  "palavras_srt max_chars [] st = st"
| "palavras_srt max_chars (palavra # ps) (segmentos, segmento_atual) =
     (if int (length segmento_atual) + int (length palavra) + 1 \<le> max_chars
      then palavras_srt max_chars ps
             (segmentos, py_strip (segmento_atual @ '' '' @ palavra))
      else palavras_srt max_chars ps (guardar segmentos segmento_atual, palavra))"

fun frases_srt :: "int \<Rightarrow> string list \<Rightarrow> string list \<times> string \<Rightarrow> string list \<times> string" where
  "frases_srt max_chars [] st = st"
| "frases_srt max_chars (f # fs) (segmentos, segmento_atual) =
     (let frase = py_strip f in
      if frase = [] then frases_srt max_chars fs (segmentos, segmento_atual)
      else if int (length segmento_atual) + int (length frase) + 1 \<le> max_chars
      then frases_srt max_chars fs (segmentos, py_strip (segmento_atual @ '' '' @ frase))
      else if int (length frase) > max_chars
      then frases_srt max_chars fs
             (palavras_srt max_chars (py_split frase) (guardar segmentos segmento_atual, []))
      else frases_srt max_chars fs (guardar segmentos segmento_atual, frase))"

definition dividir_texto_segmentos_srt :: "string \<Rightarrow> int \<Rightarrow> int \<Rightarrow> string list" where
  "dividir_texto_segmentos_srt texto0 max_chars max_linhas =
     (let texto = limpar texto0 in
      if int (length texto) \<le> max_chars then [texto]
      else
        let (segmentos, segmento_atual) =
              frases_srt max_chars (re_split_frases [] texto) ([], []);
            segmentos = guardar segmentos segmento_atual
        in if segmentos \<noteq> [] then segmentos else [slice_to texto max_chars])"

section \<open>The caption segmenter (video\_generator.py)\<close>

text \<open>The fields of \<open>ConfigVideo\<close> that timing and captions read.\<close>

record config_video =
  tempo_minimo_slide :: real
  tempo_extra_slide :: real
  legendas_embutidas :: bool
  legendas_usar_traducao :: bool
  legendas_linhas :: int
  karaoke_ativo :: bool
  karaoke_usar_traducao :: bool

definition guardar_video :: "string list \<Rightarrow> string \<Rightarrow> string list" where
  "guardar_video segmentos segmento_atual =
     (if segmento_atual \<noteq> [] then segmentos @ [py_strip segmento_atual] else segmentos)"

fun palavras_video :: "int \<Rightarrow> string list \<Rightarrow> string list \<times> string \<Rightarrow> string list \<times> string" where
  "palavras_video max_chars_segmento [] st = st"
| "palavras_video max_chars_segmento (palavra # ps) (segmentos, segmento_atual) =
     (if int (length segmento_atual) + int (length palavra) + 1 > max_chars_segmento
      then palavras_video max_chars_segmento ps
             (guardar_video segmentos segmento_atual, palavra)
      else palavras_video max_chars_segmento ps
             (segmentos, py_strip (segmento_atual @ '' '' @ palavra)))"

fun frases_video :: "int \<Rightarrow> string list \<Rightarrow> string list \<times> string \<Rightarrow> string list \<times> string" where
  "frases_video max_chars_segmento [] st = st"
| "frases_video max_chars_segmento (f # fs) (segmentos, segmento_atual) =
     (let frase = py_strip f in
      if frase = [] then frases_video max_chars_segmento fs (segmentos, segmento_atual)
      else if int (length segmento_atual) + int (length frase) + 1 > max_chars_segmento
      then
        (if int (length frase) > max_chars_segmento
         then frases_video max_chars_segmento fs
                (palavras_video max_chars_segmento (py_split frase)
                   (guardar_video segmentos segmento_atual, []))
         else frases_video max_chars_segmento fs
                (guardar_video segmentos segmento_atual, frase))
      else frases_video max_chars_segmento fs
             (segmentos, py_strip (segmento_atual @ '' '' @ frase)))"

definition dividir_texto_segmentos :: "config_video \<Rightarrow> string \<Rightarrow> string list" where
  "dividir_texto_segmentos config texto0 =
     (let chars_por_linha = 40;
          max_chars_segmento = min (legendas_linhas config * chars_por_linha) 120;
          texto = limpar texto0
      in if int (length texto) \<le> max_chars_segmento then [texto]
         else
           let (segmentos, segmento_atual) =
                 frases_video max_chars_segmento (re_split_frases [] texto) ([], []);
               segmentos = guardar_video segmentos segmento_atual
           in if segmentos = [] then [slice_to texto max_chars_segmento] else segmentos)"

section \<open>Python floats\<close>

text \<open>
  Durations are Python floats, IEEE binary64 numbers. A float is modelled by the real
  number it stands for, and every arithmetic operation returns the binary64 number
  nearest to the exact result, ties to the even significand, as the hardware does. The
  exponent is not bounded here: infinities, NaN and subnormal numbers (magnitudes beyond
  about \<open>1.8e308\<close> or below \<open>2.3e-308\<close>) are outside the model. A decimal literal
  such as \<open>0.3\<close> is \<open>dbl (3 / 10)\<close>.
\<close>

text \<open>Rounding to the nearest integer, a tie going to the even one.\<close>

definition arredondar_par :: "real \<Rightarrow> int" where
  "arredondar_par y =
     (let f = \<lfloor>y\<rfloor>; r = y - of_int f
      in if r < 1 / 2 then f else if 1 / 2 < r then f + 1
         else if even f then f else f + 1)"

text \<open>
  How often a positive number below \<open>2^52\<close> is doubled, and one from \<open>2^53\<close> on
  is halved, to bring it into the range of a 53-bit significand.
\<close>

function dobras :: "real \<Rightarrow> nat" where
  "dobras y = (if 0 < y \<and> y < 2 ^ 52 then Suc (dobras (2 * y)) else 0)"
  by pat_completeness auto
termination
proof (relation "measure (\<lambda>y. nat \<lceil>2 ^ 52 / y\<rceil>)")
  show "wf (measure (\<lambda>y. nat \<lceil>2 ^ 52 / y\<rceil>))" by simp
next
  fix y :: real
  assume a: "0 < y \<and> y < 2 ^ 52"
  define z where "z = 2 ^ 52 / y"
  have z: "1 < z" using a by (simp add: z_def)
  have h: "2 ^ 52 / (2 * y) = z / 2" by (simp add: z_def)
  have "2 \<le> \<lceil>z\<rceil>" using z by linarith
  moreover have "z / 2 \<le> of_int (\<lceil>z\<rceil> - 1)"
  proof -
    have "z \<le> of_int \<lceil>z\<rceil>" by simp
    moreover have "(2::real) \<le> of_int \<lceil>z\<rceil>" using \<open>2 \<le> \<lceil>z\<rceil>\<close> by linarith
    ultimately show ?thesis unfolding of_int_diff of_int_1 by linarith
  qed
  then have "\<lceil>z / 2\<rceil> \<le> \<lceil>z\<rceil> - 1" by (simp only: ceiling_le_iff)
  ultimately have "nat \<lceil>z / 2\<rceil> < nat \<lceil>z\<rceil>" by linarith
  then show "(2 * y, y) \<in> measure (\<lambda>y. nat \<lceil>2 ^ 52 / y\<rceil>)"
    by (simp only: in_measure h z_def[symmetric])
qed

function metades :: "real \<Rightarrow> nat" where
  "metades y = (if 2 ^ 53 \<le> y then Suc (metades (y / 2)) else 0)"
  by pat_completeness auto
termination
proof (relation "measure (\<lambda>y. nat \<lfloor>y\<rfloor>)")
  show "wf (measure (\<lambda>y. nat \<lfloor>y\<rfloor>))" by simp
next
  fix y :: real
  assume a: "2 ^ 53 \<le> y"
  then have "2 \<le> y" by simp
  then have "y / 2 \<le> y - 1" by simp
  then have "\<lfloor>y / 2\<rfloor> \<le> \<lfloor>y - 1\<rfloor>" by (rule floor_mono)
  then have "\<lfloor>y / 2\<rfloor> < \<lfloor>y\<rfloor>" by simp
  moreover have "0 < \<lfloor>y\<rfloor>" using \<open>2 \<le> y\<close> by linarith
  ultimately have "nat \<lfloor>y / 2\<rfloor> < nat \<lfloor>y\<rfloor>" by linarith
  then show "(y / 2, y) \<in> measure (\<lambda>y. nat \<lfloor>y\<rfloor>)" by simp
qed

text \<open>The binary64 number nearest to \<open>x\<close>.\<close>

definition dbl :: "real \<Rightarrow> real" where
  "dbl x =
     (if x = 0 then 0
      else
        let y = \<bar>x\<bar>; a = dobras y; b = metades y
        in sgn x * of_int (arredondar_par (y * 2 ^ a / 2 ^ b)) * 2 ^ b / 2 ^ a)"

text \<open>Python's \<open>+\<close>, \<open>-\<close>, \<open>*\<close> and \<open>/\<close> on floats.\<close>

definition fadd :: "real \<Rightarrow> real \<Rightarrow> real" where "fadd x y = dbl (x + y)"
definition fsub :: "real \<Rightarrow> real \<Rightarrow> real" where "fsub x y = dbl (x - y)"
definition fmul :: "real \<Rightarrow> real \<Rightarrow> real" where "fmul x y = dbl (x * y)"
definition fdiv :: "real \<Rightarrow> real \<Rightarrow> real" where "fdiv x y = dbl (x / y)"

section \<open>Subtitle text layout and the subtitle track (pptx\_handler.py)\<close>

text \<open>
  The loop of \<open>_formatar_texto_srt\<close> carries \<open>(linhas, linha_atual, tamanho_atual)\<close>;
  its \<open>break\<close> ends the recursion.
\<close>

fun linhas_srt ::
  "int \<Rightarrow> string list \<Rightarrow> string list \<times> string list \<times> int \<Rightarrow> string list \<times> string list \<times> int" where
  "linhas_srt max_chars_linha [] st = st"
| "linhas_srt max_chars_linha (palavra # ps) (linhas, linha_atual, tamanho_atual) =
     (if tamanho_atual + int (length palavra) + 1 \<le> max_chars_linha
      then linhas_srt max_chars_linha ps
             (linhas, linha_atual @ [palavra], tamanho_atual + (int (length palavra) + 1))
      else
        let linhas = (if linha_atual \<noteq> [] then linhas @ [py_join '' '' linha_atual] else linhas)
        in if length linhas \<ge> 2 then (linhas, [palavra], int (length palavra))
           else linhas_srt max_chars_linha ps (linhas, [palavra], int (length palavra)))"

text \<open>
  The same wrap carried to its end: the loop of \<open>_formatar_texto_srt\<close> without the
  \<open>break\<close> and without the cut to two lines, returning every line.
\<close>

fun quebrar_linhas ::
  "int \<Rightarrow> string list \<Rightarrow> string list \<times> string list \<times> int \<Rightarrow> string list" where
  "quebrar_linhas max_chars_linha [] (linhas, linha_atual, tamanho_atual) =
     (if linha_atual \<noteq> [] then linhas @ [py_join '' '' linha_atual] else linhas)"
| "quebrar_linhas max_chars_linha (palavra # ps) (linhas, linha_atual, tamanho_atual) =
     (if tamanho_atual + int (length palavra) + 1 \<le> max_chars_linha
      then quebrar_linhas max_chars_linha ps
             (linhas, linha_atual @ [palavra], tamanho_atual + (int (length palavra) + 1))
      else quebrar_linhas max_chars_linha ps
             (if linha_atual \<noteq> [] then linhas @ [py_join '' '' linha_atual] else linhas,
              [palavra], int (length palavra)))"

definition formatar_texto_srt :: "string \<Rightarrow> int \<Rightarrow> string" where
  "formatar_texto_srt texto0 max_chars_linha =
     (let texto = limpar texto0 in
      if int (length texto) \<le> max_chars_linha then texto
      else
        let (linhas, linha_atual, tamanho_atual) =
              linhas_srt max_chars_linha (py_split texto) ([], [], 0);
            linhas = (if linha_atual \<noteq> [] \<and> length linhas < 2
                      then linhas @ [py_join '' '' linha_atual] else linhas)
        in py_join [CHR 0x0A] (take 2 linhas))"

text \<open>\<open>SlideInfo\<close>. Its durations are floats.\<close>

record slide_info =
  numero :: int
  texto_visivel :: string
  notas :: string
  texto_narrar :: string
  caminho_audio :: string
  duracao_audio :: real
  texto_traduzido :: string
  caminho_audio_traduzido :: string
  duracao_audio_traduzido :: real

text \<open>Python's \<open>a or b\<close> on strings, and \<open>x or 0\<close> on numbers.\<close>

definition ou_texto :: "string \<Rightarrow> string \<Rightarrow> string" where
  "ou_texto a b = (if a \<noteq> [] then a else b)"

definition ou_zero :: "real \<Rightarrow> real" where
  "ou_zero x = (if x \<noteq> 0 then x else 0)"

text \<open>
  One subtitle entry, before its times are printed: the counter, the start and end in
  seconds, and the laid-out text.
\<close>

record entrada_srt =
  indice :: int
  inicio :: real
  fim :: real
  texto_formatado :: string

record estado_srt =
  entradas :: "entrada_srt list"
  tempo_atual :: real
  contador :: int

text \<open>
  The text and the duration \<open>gerar_srt\<close> picks for a slide. \<open>obter\<close> stands for
  \<open>_obter_duracao_audio\<close>, which reads the audio file.
\<close>

definition texto_srt :: "bool \<Rightarrow> slide_info \<Rightarrow> string" where
  "texto_srt usar_traducao slide =
     (if usar_traducao then ou_texto (texto_traduzido slide) (texto_narrar slide)
      else texto_narrar slide)"

definition duracao_slide_srt ::
  "(string \<Rightarrow> real) \<Rightarrow> bool \<Rightarrow> real \<Rightarrow> real \<Rightarrow> slide_info \<Rightarrow> real" where
  "duracao_slide_srt obter usar_traducao tempo_extra tempo_minimo slide =
     (let d =
            (if usar_traducao then
               let duracao_trad = (if caminho_audio_traduzido slide \<noteq> []
                                   then obter (caminho_audio_traduzido slide) else 0);
                   duracao_orig = (if caminho_audio slide \<noteq> []
                                   then obter (caminho_audio slide) else 0)
               in max duracao_trad duracao_orig
             else if caminho_audio slide \<noteq> [] then obter (caminho_audio slide) else 0);
          d = (if d \<le> 0 then
                 (if usar_traducao
                  then max (ou_zero (duracao_audio_traduzido slide)) (ou_zero (duracao_audio slide))
                  else ou_zero (duracao_audio slide))
               else d)
      in if d > 0 then fadd d tempo_extra else tempo_minimo)"

definition entradas_slide ::
  "real \<Rightarrow> int \<Rightarrow> real \<Rightarrow> string list \<Rightarrow> entrada_srt list" where
  "entradas_slide t0 c0 duracao_por_segmento segmentos =
     map (\<lambda>(seg_idx, segmento).
            let ini = fadd t0 (fmul (real seg_idx) duracao_por_segmento);
                fi = fadd ini duracao_por_segmento
            in \<lparr>indice = c0 + int seg_idx, inicio = ini, fim = fi,
                texto_formatado = formatar_texto_srt segmento 60\<rparr>)
         (enumerate 0 segmentos)"

definition srt_slide ::
  "(string \<Rightarrow> real) \<Rightarrow> bool \<Rightarrow> real \<Rightarrow> real \<Rightarrow> int \<Rightarrow> int \<Rightarrow> estado_srt \<Rightarrow> slide_info
     \<Rightarrow> estado_srt" where
  "srt_slide obter usar_traducao tempo_extra tempo_minimo max_chars_segmento max_linhas st slide =
     (let texto = texto_srt usar_traducao slide;
          duracao_slide = duracao_slide_srt obter usar_traducao tempo_extra tempo_minimo slide
      in if texto = [] \<or> py_strip texto = []
         then st\<lparr>tempo_atual := fadd (tempo_atual st) duracao_slide\<rparr>
         else
           let segmentos = dividir_texto_segmentos_srt texto max_chars_segmento max_linhas;
               num_segmentos = length segmentos
           in if num_segmentos = 0
              then st\<lparr>tempo_atual := fadd (tempo_atual st) duracao_slide\<rparr>
              else
                let duracao_por_segmento = fdiv duracao_slide (real num_segmentos)
                in \<lparr>entradas = entradas st @
                       entradas_slide (tempo_atual st) (contador st) duracao_por_segmento segmentos,
                    tempo_atual = fadd (tempo_atual st) duracao_slide,
                    contador = contador st + int num_segmentos\<rparr>)"

text \<open>
  \<open>gerar_srt\<close>: no presentation loaded gives \<open>None\<close> (the source returns False);
  otherwise the entries written to the file, in order.
\<close>

definition gerar_srt ::
  "(string \<Rightarrow> real) \<Rightarrow> slide_info list option \<Rightarrow> bool \<Rightarrow> real \<Rightarrow> real \<Rightarrow> int \<Rightarrow> int
     \<Rightarrow> estado_srt option" where
  "gerar_srt obter apresentacao usar_traducao tempo_extra tempo_minimo max_chars_segmento max_linhas =
     (case apresentacao of
        None \<Rightarrow> None
      | Some slides \<Rightarrow>
          Some (foldl (srt_slide obter usar_traducao tempo_extra tempo_minimo
                         max_chars_segmento max_linhas)
                  \<lparr>entradas = [], tempo_atual = 0, contador = 1\<rparr> slides))"

section \<open>Karaoke clips and slide timing (video\_generator.py)\<close>

text \<open>
  What the generator asks of the file system and of MoviePy: \<open>os.path.exists\<close>, and
  \<open>AudioFileClip(path).duration\<close>, which is \<open>None\<close> when opening the file raises.
\<close>

record ambiente =
  existe :: "string \<Rightarrow> bool"
  duracao_clip :: "string \<Rightarrow> real option"

datatype erro = ZeroDivisionError

text \<open>\<open>int(x)\<close> on a float: truncation towards zero.\<close>

definition py_int :: "real \<Rightarrow> int" where
  "py_int x = (if 0 \<le> x then \<lfloor>x\<rfloor> else \<lceil>x\<rceil>)"

text \<open>
  \<open>[palavras[i:i + k] for i in range(0, n, k)]\<close>. The source calls it with
  \<open>k \<ge> 1\<close> only; \<open>k = 0\<close> is included to make the function total.
\<close>

function grupos_de :: "nat \<Rightarrow> 'a list \<Rightarrow> 'a list list" where
  "grupos_de k xs = (if xs = [] \<or> k = 0 then [] else take k xs # grupos_de k (drop k xs))"
  by pat_completeness auto
termination
  by (relation "measure (\<lambda>(k, xs). length xs)") auto

text \<open>
  One clip of the karaoke sequence: the words it highlights (first and last index into
  the slide's words), its duration, and whether the audio is attached to it.
\<close>

record clip_karaoke =
  idx_palavra_inicio :: int
  idx_palavra_fim :: int
  duracao_frame :: real
  com_audio :: bool

definition duracao_para_palavras :: "real option \<Rightarrow> real \<Rightarrow> real" where
  "duracao_para_palavras duracao_audio_opt duracao_slide =
     (case duracao_audio_opt of
        None \<Rightarrow> duracao_slide
      | Some a \<Rightarrow> if a \<noteq> 0 \<and> a > 0 then a else duracao_slide)"

definition audio_carregado :: "ambiente \<Rightarrow> string option \<Rightarrow> bool" where
  "audio_carregado amb audio_path =
     (case audio_path of
        None \<Rightarrow> False
      | Some p \<Rightarrow> p \<noteq> [] \<and> existe amb p \<and> duracao_clip amb p \<noteq> None)"

definition clips_de_grupos ::
  "string list list \<Rightarrow> real \<Rightarrow> real \<Rightarrow> bool \<Rightarrow> clip_karaoke list" where
  "clips_de_grupos grupos_palavras tempo_por_frame_audio tempo_extra_final audio_clip =
     (let num_frames = length grupos_palavras in
      map (\<lambda>(idx, grupo).
             let ini = int (sum_list (map length (take idx grupos_palavras)));
                 fi = ini + int (length grupo) - 1
             in \<lparr>idx_palavra_inicio = ini, idx_palavra_fim = fi,
                 duracao_frame = (if int idx = int num_frames - 1
                                  then fadd tempo_por_frame_audio tempo_extra_final
                                  else tempo_por_frame_audio),
                 com_audio = (idx = 0 \<and> audio_clip)\<rparr>)
          (enumerate 0 grupos_palavras))"

text \<open>
  \<open>_gerar_clips_karaoke\<close>. The grouping divides by the time per word, which raises
  \<open>ZeroDivisionError\<close> when the governing duration is zero.
\<close>

definition agrupar_palavras :: "string list \<Rightarrow> real \<Rightarrow> erro + string list list" where
  "agrupar_palavras palavras dpp =
     (let num_palavras = length palavras;
          tempo_por_palavra = fdiv dpp (real num_palavras);
          min_tempo_frame = dbl (3 / 10)
      in if tempo_por_palavra < min_tempo_frame
         then (if tempo_por_palavra = 0 then Inl ZeroDivisionError
               else
                 let palavras_por_frame = max 1 (py_int (fdiv min_tempo_frame tempo_por_palavra))
                 in Inr (grupos_de (nat palavras_por_frame) palavras))
         else Inr (map (\<lambda>p. [p]) palavras))"

definition gerar_clips_karaoke ::
  "ambiente \<Rightarrow> string \<Rightarrow> real \<Rightarrow> string option \<Rightarrow> real option \<Rightarrow> erro + clip_karaoke list" where
  "gerar_clips_karaoke amb texto duracao_slide audio_path duracao_audio_opt =
     (let palavras = py_split (py_strip texto);
          num_palavras = length palavras
      in if num_palavras = 0 then Inr []
         else
           let dpp = duracao_para_palavras duracao_audio_opt duracao_slide
           in case agrupar_palavras palavras dpp of
                Inl e \<Rightarrow> Inl e
              | Inr grupos_palavras \<Rightarrow>
                  let num_frames = length grupos_palavras;
                      tempo_por_frame_audio = fdiv dpp (real num_frames);
                      tempo_extra_final = max 0 (fsub duracao_slide dpp)
                  in Inr (clips_de_grupos grupos_palavras tempo_por_frame_audio
                            tempo_extra_final (audio_carregado amb audio_path)))"

text \<open>
  The timing part of the slide loop of \<open>gerar_video\<close>: the two resolved durations, the
  audio file chosen, the duration that governs word timing, the progress message and
  the slide's duration on the timeline.
\<close>

datatype mensagem =
    AudioTraduzido real
  | FallbackOriginal real
  | AudioOriginal real
  | SemInformacao

record tempos_slide =
  audio_path_usado :: "string option"
  duracao_audio_real :: real
  duracao_audio_max :: real
  mensagens :: "mensagem list"
  duracao :: real

definition duracao_ficheiro :: "ambiente \<Rightarrow> string \<Rightarrow> real \<Rightarrow> real" where
  "duracao_ficheiro amb caminho guardada =
     (if caminho \<noteq> [] \<and> existe amb caminho
      then (case duracao_clip amb caminho of Some d \<Rightarrow> d | None \<Rightarrow> ou_zero guardada)
      else 0)"

definition calcular_tempos ::
  "ambiente \<Rightarrow> config_video \<Rightarrow> bool \<Rightarrow> slide_info option \<Rightarrow> tempos_slide" where
  "calcular_tempos amb config usar_audio_traduzido slide_opt =
     (let r =
        (case slide_opt of
           None \<Rightarrow> (None, 0, 0, [SemInformacao])
         | Some slide_info \<Rightarrow>
             let caminho_audio_orig = caminho_audio slide_info;
                 caminho_audio_trad = caminho_audio_traduzido slide_info;
                 duracao_orig = duracao_ficheiro amb caminho_audio_orig (duracao_audio slide_info);
                 duracao_trad = duracao_ficheiro amb caminho_audio_trad
                                  (duracao_audio_traduzido slide_info);
                 (audio_path, real0, msgs) =
                   (if usar_audio_traduzido then
                      (if caminho_audio_trad \<noteq> [] \<and> existe amb caminho_audio_trad
                       then (Some caminho_audio_trad, duracao_trad, [AudioTraduzido duracao_trad])
                       else if caminho_audio_orig \<noteq> [] \<and> existe amb caminho_audio_orig
                       then (Some caminho_audio_orig, duracao_orig, [FallbackOriginal duracao_orig])
                       else (None, 0, []))
                    else
                      (if caminho_audio_orig \<noteq> [] \<and> existe amb caminho_audio_orig
                       then (Some caminho_audio_orig, duracao_orig, [AudioOriginal duracao_orig])
                       else (None, 0, [])));
                 d = max duracao_orig duracao_trad;
                 real1 = (if real0 \<le> 0 then d else real0);
                 d = (if d \<le> 0
                      then max (ou_zero (duracao_audio slide_info))
                               (ou_zero (duracao_audio_traduzido slide_info))
                      else d)
             in (audio_path, real1, d, msgs));
          (audio_path, real1, d, msgs) = r
      in \<lparr>audio_path_usado = audio_path, duracao_audio_real = real1, duracao_audio_max = d,
          mensagens = msgs,
          duracao = (if d > 0 then fadd d (tempo_extra_slide config)
                     else tempo_minimo_slide config)\<rparr>)"

section \<open>Whitespace normalisation\<close>

text \<open>
  The normal form the round-trip property compares texts in: the words of the text
  joined by single spaces, Python's \<open>' '.join(s.split())\<close>.
\<close>

definition normalizar :: "string \<Rightarrow> string" where
  "normalizar s = py_join '' '' (py_split s)"

section \<open>Example inputs\<close>

text \<open>A slide with a narration and no audio, and the state \<open>gerar_srt\<close> starts in.\<close>

definition slide_exemplo :: "string \<Rightarrow> slide_info" where
  "slide_exemplo texto =
     \<lparr>numero = 1, texto_visivel = [], notas = [], texto_narrar = texto, caminho_audio = [],
      duracao_audio = 0, texto_traduzido = [], caminho_audio_traduzido = [],
      duracao_audio_traduzido = 0\<rparr>"

definition estado_inicial :: estado_srt where
  "estado_inicial = \<lparr>entradas = [], tempo_atual = 0, contador = 1\<rparr>"

text \<open>
  Three words of thirty letters each, 92 characters in all, and two such words, 61
  characters.
\<close>

definition texto_tres_linhas :: string where
  "texto_tres_linhas = ''aaaaaaaaaaaaaaaaaaaaaaaaaaaaaa bbbbbbbbbbbbbbbbbbbbbbbbbbbbbb cccccccccccccccccccccccccccccc''"

definition texto_duas_linhas :: string where
  "texto_duas_linhas = ''aaaaaaaaaaaaaaaaaaaaaaaaaaaaaa bbbbbbbbbbbbbbbbbbbbbbbbbbbbbb''"

text \<open>
  A sentence of 70 characters, and a narration of 709 characters: that sentence ten
  times, with single spaces between.
\<close>

definition frase_70 :: string where
  "frase_70 = ''Every sentence of this narration has exactly seventy characters in it.''"

definition texto_dez_frases :: string where
  "texto_dez_frases = py_join '' '' (replicate 10 frase_70)"

text \<open>A duration resolver for presentations without audio files.\<close>

definition sem_audio :: "string \<Rightarrow> real" where
  "sem_audio caminho = 0"

text \<open>
  Two audio files, the original of 5 seconds and the translation of 7 seconds: as the
  video generator sees them, and as \<open>_obter_duracao_audio\<close> resolves them.
\<close>

definition amb_exemplo :: ambiente where
  "amb_exemplo =
     \<lparr>existe = (\<lambda>p. p = ''orig.mp3'' \<or> p = ''trad.mp3''),
      duracao_clip = (\<lambda>p. if p = ''orig.mp3'' then Some 5
                           else if p = ''trad.mp3'' then Some 7 else None)\<rparr>"

definition obter_exemplo :: "string \<Rightarrow> real" where
  "obter_exemplo p = (if p = ''orig.mp3'' then 5 else if p = ''trad.mp3'' then 7 else 0)"

text \<open>Twenty one-letter words, and a word of 300 letters.\<close>

definition texto_20 :: string where
  "texto_20 = ''a b c d e f g h i j k l m n o p q r s t''"

definition texto_300 :: string where
  "texto_300 = replicate 300 (CHR ''a'')"

text \<open>
  A slide with both audio files, a slide with the original audio only, and a slide whose
  original audio file is missing while the translated one is there.
\<close>

definition slide_dois_audios :: slide_info where
  "slide_dois_audios =
     \<lparr>numero = 1, texto_visivel = [], notas = [], texto_narrar = ''Hello world foo bar'',
      caminho_audio = ''orig.mp3'', duracao_audio = 5,
      texto_traduzido = ''Ola mundo foo bar'', caminho_audio_traduzido = ''trad.mp3'',
      duracao_audio_traduzido = 7\<rparr>"

definition slide_so_original :: slide_info where
  "slide_so_original =
     \<lparr>numero = 2, texto_visivel = [], notas = [], texto_narrar = ''Hello world foo bar'',
      caminho_audio = ''orig.mp3'', duracao_audio = 5,
      texto_traduzido = [], caminho_audio_traduzido = [], duracao_audio_traduzido = 0\<rparr>"

definition slide_so_traducao :: slide_info where
  "slide_so_traducao =
     \<lparr>numero = 3, texto_visivel = [], notas = [], texto_narrar = ''Hello world foo bar'',
      caminho_audio = ''falta.mp3'', duracao_audio = 0,
      texto_traduzido = ''Ola mundo foo bar'', caminho_audio_traduzido = ''trad.mp3'',
      duracao_audio_traduzido = 7\<rparr>"

text \<open>
  The default timing (padding 0.5, minimum 3) with karaoke on, and the same with a
  padding of -1.
\<close>

definition config_exemplo :: config_video where
  "config_exemplo =
     \<lparr>tempo_minimo_slide = 3, tempo_extra_slide = 1/2, legendas_embutidas = True,
      legendas_usar_traducao = True, legendas_linhas = 3, karaoke_ativo = True,
      karaoke_usar_traducao = False\<rparr>"

definition config_padding_negativo :: config_video where
  "config_padding_negativo = config_exemplo\<lparr>tempo_extra_slide := - 1\<rparr>"

section \<open>Words, stripping and splitting\<close>

lemma isspace_lits [simp]: "isspace (CHR 0x20)" "isspace (CHR 0x0A)"
  by (simp_all add: isspace_def)

lemma py_split_Nil [simp]: "py_split [] = []"
  by (simp add: py_split_def)

lemma py_split_space [simp]: "isspace c \<Longrightarrow> py_split (c # cs) = py_split cs"
  by (simp add: py_split_def)

lemma split_acc_append_right:
  "b = [] \<or> isspace (hd b) \<Longrightarrow> split_acc w (a @ b) = split_acc w a @ py_split b"
proof (induction a arbitrary: w)
  case Nil
  then show ?case by (cases b) (auto simp: py_split_def)
next
  case (Cons x a)
  then show ?case by simp
qed

lemma split_acc_append_left:
  "a \<noteq> [] \<Longrightarrow> isspace (last a) \<Longrightarrow> split_acc w (a @ b) = split_acc w a @ py_split b"
proof (induction a arbitrary: w)
  case Nil
  then show ?case by simp
next
  case (Cons x a)
  show ?case
  proof (cases "a = []")
    case True
    with Cons.prems show ?thesis by (simp add: py_split_def)
  next
    case False
    with Cons show ?thesis by simp
  qed
qed

lemma py_split_append_right:
  "b = [] \<or> isspace (hd b) \<Longrightarrow> py_split (a @ b) = py_split a @ py_split b"
  by (simp add: py_split_def split_acc_append_right[unfolded py_split_def])

lemma py_split_append_left:
  "a = [] \<or> isspace (last a) \<Longrightarrow> py_split (a @ b) = py_split a @ py_split b"
  by (cases "a = []") (auto simp add: py_split_def split_acc_append_left[unfolded py_split_def])

lemma py_split_sep:
  "isspace c \<Longrightarrow> py_split (a @ c # b) = py_split a @ py_split b"
  using py_split_append_right[of "c # b" a] by simp

lemma py_split_all_space: "\<forall>c\<in>set s. isspace c \<Longrightarrow> py_split s = []"
  by (induction s) auto

lemma py_split_dropWhile [simp]: "py_split (dropWhile isspace s) = py_split s"
  by (induction s) auto

lemma py_split_rstrip: "py_split (rev (dropWhile isspace (rev s))) = py_split s"
proof -
  let ?r = "rev (dropWhile isspace (rev s))" and ?t = "rev (takeWhile isspace (rev s))"
  have s: "s = ?r @ ?t"
    by (metis rev_append rev_rev_ident takeWhile_dropWhile_id)
  have t: "\<forall>c\<in>set ?t. isspace c"
    by (auto dest: set_takeWhileD)
  then have "?t = [] \<or> isspace (hd ?t)"
    by (cases ?t) (auto simp del: set_rev)
  then have "py_split (?r @ ?t) = py_split ?r @ py_split ?t"
    by (rule py_split_append_right)
  with t s show ?thesis by (simp add: py_split_all_space del: set_rev)
qed

lemma py_split_strip [simp]: "py_split (py_strip s) = py_split s"
  by (simp add: py_strip_def py_split_rstrip)

lemma split_acc_replace_nl: "split_acc w (replace_nl s) = split_acc w s"
  by (induction s arbitrary: w) (auto simp: replace_nl_def)

lemma split_acc_replace_dbl: "split_acc w (replace_dbl s) = split_acc w s"
  by (induction s arbitrary: w rule: replace_dbl.induct) auto

lemma py_split_limpar [simp]: "py_split (limpar s) = py_split s"
  using py_split_strip[of s]
  by (simp add: limpar_def py_split_def split_acc_replace_nl split_acc_replace_dbl)

lemma split_acc_word:
  "\<forall>c\<in>set w. \<not> isspace c \<Longrightarrow> v @ w \<noteq> [] \<Longrightarrow> split_acc v w = [v @ w]"
  by (induction w arbitrary: v) auto

lemma py_split_word: "w \<noteq> [] \<Longrightarrow> \<forall>c\<in>set w. \<not> isspace c \<Longrightarrow> py_split w = [w]"
  using split_acc_word[of w "[]"] by (simp add: py_split_def)

lemma split_acc_words:
  "\<forall>c\<in>set v. \<not> isspace c \<Longrightarrow>
   \<forall>w\<in>set (split_acc v s). w \<noteq> [] \<and> (\<forall>c\<in>set w. \<not> isspace c)"
proof (induction s arbitrary: v)
  case Nil
  then show ?case by auto
next
  case (Cons a s)
  show ?case
  proof (cases "isspace a")
    case True
    have "\<forall>w\<in>set (split_acc [] s). w \<noteq> [] \<and> (\<forall>c\<in>set w. \<not> isspace c)"
      using Cons.IH[of "[]"] by simp
    with Cons.prems True show ?thesis by auto
  next
    case False
    with Cons.prems have "\<forall>c\<in>set (v @ [a]). \<not> isspace c" by auto
    from Cons.IH[OF this] False show ?thesis by simp
  qed
qed

lemma py_split_words:
  "w \<in> set (py_split s) \<Longrightarrow> w \<noteq> [] \<and> (\<forall>c\<in>set w. \<not> isspace c)"
  using split_acc_words[of "[]" s] by (simp add: py_split_def)

lemma concat_split_split [simp]: "concat (map py_split (py_split s)) = py_split s"
proof -
  have "\<forall>x\<in>set xs. py_split x = [x] \<Longrightarrow> concat (map py_split xs) = xs" for xs
    by (induction xs) auto
  then show ?thesis
    using py_split_words py_split_word by blast
qed

lemma re_split_frases_words:
  "concat (map py_split (re_split_frases cur s)) = py_split (cur @ s)"
proof (induction cur s rule: re_split_frases.induct)
  case (3 cur c d cs)
  show ?case
  proof (cases "is_fim_frase c \<and> isspace d")
    case True
    with 3 have "concat (map py_split (re_split_frases cur (c # d # cs)))
        = py_split (cur @ [c]) @ py_split cs" by simp
    also have "\<dots> = py_split ((cur @ [c]) @ d # cs)"
      using True py_split_sep[of d "cur @ [c]" cs] by simp
    finally show ?thesis by simp
  next
    case False
    with 3 show ?thesis by auto
  qed
qed simp_all

lemma py_split_join:
  "isspace c \<Longrightarrow> py_split (py_join [c] xs) = concat (map py_split xs)"
  by (induction "[c]" xs rule: py_join.induct) (simp_all add: py_split_sep)


subsection \<open>Stripping\<close>

lemma dropWhile_hd_id: "s = [] \<or> \<not> P (hd s) \<Longrightarrow> dropWhile P s = s"
  by (cases s) auto

lemma py_strip_ends: "py_strip s = [] \<or> (\<not> isspace (hd (py_strip s)) \<and> \<not> isspace (last (py_strip s)))"
proof -
  let ?u = "dropWhile isspace s"
  let ?v = "dropWhile isspace (rev ?u)"
  have u: "?u = [] \<or> \<not> isspace (hd ?u)" using hd_dropWhile[of isspace s] by blast
  have v: "?v = [] \<or> \<not> isspace (hd ?v)" using hd_dropWhile[of isspace "rev ?u"] by blast
  have "?v \<noteq> [] \<Longrightarrow> last ?v = last (rev ?u)"
    by (metis last_appendR takeWhile_dropWhile_id)
  then have lv: "?v \<noteq> [] \<Longrightarrow> \<not> isspace (last ?v)"
    using u by (cases "?u = []") (auto simp: last_rev)
  show ?thesis
    unfolding py_strip_def using v lv by (cases "?v = []") (auto simp: hd_rev last_rev)
qed

lemma py_strip_id: "s = [] \<or> (\<not> isspace (hd s) \<and> \<not> isspace (last s)) \<Longrightarrow> py_strip s = s"
proof (cases "s = []")
  case True
  then show ?thesis by (simp add: py_strip_def)
next
  case False
  assume "s = [] \<or> (\<not> isspace (hd s) \<and> \<not> isspace (last s))"
  with False have h: "\<not> isspace (hd s)" and l: "\<not> isspace (last s)" by auto
  have 1: "dropWhile isspace s = s" using h False by (simp add: dropWhile_hd_id)
  have "hd (rev s) = last s" using False by (simp add: hd_rev)
  then have 2: "dropWhile isspace (rev s) = rev s" using l False by (simp add: dropWhile_hd_id)
  show ?thesis by (simp add: py_strip_def 1 2)
qed

lemma py_strip_idem [simp]: "py_strip (py_strip s) = py_strip s"
  using py_strip_ends[of s] by (rule py_strip_id)

lemma py_strip_Nil [simp]: "py_strip [] = []"
  by (simp add: py_strip_def)

lemma py_strip_word: "\<forall>c\<in>set w. \<not> isspace c \<Longrightarrow> py_strip w = w"
  by (rule py_strip_id) (cases w, auto)

lemma py_strip_split_word: "w \<in> set (py_split s) \<Longrightarrow> py_strip w = w"
  using py_split_words py_strip_word by blast

subsection \<open>The segmenter keeps the words\<close>

lemma guardar_words [simp]:
  "concat (map py_split (guardar segs cur)) = concat (map py_split segs) @ py_split cur"
  by (simp add: guardar_def)

lemma palavras_srt_words:
  "palavras_srt mc ps (segs, cur) = (segs', cur') \<Longrightarrow>
   concat (map py_split segs') @ py_split cur' =
   concat (map py_split segs) @ py_split cur @ concat (map py_split ps)"
proof (induction ps arbitrary: segs cur)
  case Nil
  then show ?case by simp
next
  case (Cons p ps)
  show ?case
  proof (cases "int (length cur) + int (length p) + 1 \<le> mc")
    case True
    with Cons.prems have "palavras_srt mc ps (segs, py_strip (cur @ '' '' @ p)) = (segs', cur')"
      by simp
    from Cons.IH[OF this] show ?thesis by (simp add: py_split_sep)
  next
    case False
    with Cons.prems have "palavras_srt mc ps (guardar segs cur, p) = (segs', cur')"
      by simp
    from Cons.IH[OF this] show ?thesis by simp
  qed
qed

lemma frases_srt_words:
  "frases_srt mc fs (segs, cur) = (segs', cur') \<Longrightarrow>
   concat (map py_split segs') @ py_split cur' =
   concat (map py_split segs) @ py_split cur @ concat (map py_split fs)"
proof (induction fs arbitrary: segs cur)
  case Nil
  then show ?case by simp
next
  case (Cons f fs)
  have blank: "py_strip f = [] \<Longrightarrow> py_split f = []"
    by (metis py_split_Nil py_split_strip)
  consider (a) "py_strip f = []"
    | (b) "py_strip f \<noteq> []" "int (length cur) + int (length (py_strip f)) + 1 \<le> mc"
    | (c) "py_strip f \<noteq> []" "\<not> int (length cur) + int (length (py_strip f)) + 1 \<le> mc"
          "int (length (py_strip f)) > mc"
    | (d) "py_strip f \<noteq> []" "\<not> int (length cur) + int (length (py_strip f)) + 1 \<le> mc"
          "\<not> int (length (py_strip f)) > mc"
    by blast
  then show ?case
  proof cases
    case a
    with Cons.prems have "frases_srt mc fs (segs, cur) = (segs', cur')" by simp
    from Cons.IH[OF this] a show ?thesis by (simp add: blank)
  next
    case b
    with Cons.prems have
      "frases_srt mc fs (segs, py_strip (cur @ '' '' @ py_strip f)) = (segs', cur')"
      by (simp add: Let_def)
    from Cons.IH[OF this] show ?thesis by (simp add: py_split_sep)
  next
    case c
    obtain s1 c1 where p: "palavras_srt mc (py_split (py_strip f)) (guardar segs cur, []) = (s1, c1)"
      by (cases "palavras_srt mc (py_split (py_strip f)) (guardar segs cur, [])")
    with c Cons.prems have "frases_srt mc fs (s1, c1) = (segs', cur')"
      by (simp add: Let_def)
    from Cons.IH[OF this] palavras_srt_words[OF p] show ?thesis by simp
  next
    case d
    with Cons.prems have "frases_srt mc fs (guardar segs cur, py_strip f) = (segs', cur')"
      by (simp add: Let_def)
    from Cons.IH[OF this] show ?thesis by simp
  qed
qed

lemma py_split_empty_take: "py_split s = [] \<Longrightarrow> py_split (take n s) = []"
proof -
  have "split_acc w s = [] \<Longrightarrow> w = [] \<and> (\<forall>c\<in>set s. isspace c)" for w
    by (induction s arbitrary: w) (auto split: if_splits)
  then have "py_split s = [] \<Longrightarrow> \<forall>c\<in>set s. isspace c" by (auto simp: py_split_def)
  then show "py_split s = [] \<Longrightarrow> py_split (take n s) = []"
    by (meson in_set_takeD py_split_all_space)
qed

lemma dividir_srt_words:
  "concat (map py_split (dividir_texto_segmentos_srt texto mc ml)) = py_split texto"
proof (cases "int (length (limpar texto)) \<le> mc")
  case True
  then show ?thesis by (simp add: dividir_texto_segmentos_srt_def)
next
  case False
  obtain s1 c1 where f: "frases_srt mc (re_split_frases [] (limpar texto)) ([], []) = (s1, c1)"
    by (cases "frases_srt mc (re_split_frases [] (limpar texto)) ([], [])")
  from frases_srt_words[OF f]
  have w: "concat (map py_split (guardar s1 c1)) = py_split texto"
    by (simp add: re_split_frases_words)
  show ?thesis
  proof (cases "guardar s1 c1 = []")
    case True
    with w have "py_split (limpar texto) = []" by simp
    then have "py_split (slice_to (limpar texto) mc) = []"
      by (simp add: slice_to_def py_split_empty_take)
    with True False f w show ?thesis by (simp add: dividir_texto_segmentos_srt_def)
  next
    case False
    with \<open>\<not> int (length (limpar texto)) \<le> mc\<close> f w show ?thesis
      by (simp add: dividir_texto_segmentos_srt_def)
  qed
qed


subsection \<open>The two segmenters run the same loop\<close>

lemma guardar_video_eq: "py_strip cur = cur \<Longrightarrow> guardar_video segs cur = guardar segs cur"
  by (simp add: guardar_video_def guardar_def)

lemma palavras_video_eq:
  "py_strip cur = cur \<Longrightarrow> \<forall>p\<in>set ps. py_strip p = p \<Longrightarrow>
   palavras_video mc ps (segs, cur) = palavras_srt mc ps (segs, cur)"
proof (induction ps arbitrary: segs cur)
  case Nil
  then show ?case by simp
next
  case (Cons p ps)
  then show ?case by (simp add: guardar_video_eq not_le)
qed

lemma palavras_srt_stripped:
  "py_strip cur = cur \<Longrightarrow> \<forall>p\<in>set ps. py_strip p = p \<Longrightarrow>
   py_strip (snd (palavras_srt mc ps (segs, cur))) = snd (palavras_srt mc ps (segs, cur))"
  by (induction ps arbitrary: segs cur) simp_all

lemma frases_video_eq:
  "py_strip cur = cur \<Longrightarrow> frases_video mc fs (segs, cur) = frases_srt mc fs (segs, cur)"
proof (induction fs arbitrary: segs cur)
  case Nil
  then show ?case by simp
next
  case (Cons f fs)
  let ?ws = "py_split (py_strip f)"
  let ?r = "palavras_srt mc ?ws (guardar segs cur, [])"
  have ws: "\<forall>p\<in>set ?ws. py_strip p = p" by (simp add: py_strip_split_word)
  have r: "py_strip (snd ?r) = snd ?r"
    by (rule palavras_srt_stripped) (simp_all add: ws)
  have pv: "palavras_video mc ?ws (guardar segs cur, []) = ?r"
    by (rule palavras_video_eq) (simp_all add: ws)
  have "frases_video mc fs ?r = frases_srt mc fs ?r"
    using Cons.IH[of "snd ?r" "fst ?r"] r by simp
  with Cons pv show ?case
    by (simp add: Let_def guardar_video_eq not_le)
qed

lemma frases_srt_stripped:
  "py_strip cur = cur \<Longrightarrow>
   py_strip (snd (frases_srt mc fs (segs, cur))) = snd (frases_srt mc fs (segs, cur))"
proof (induction fs arbitrary: segs cur)
  case Nil
  then show ?case by simp
next
  case (Cons f fs)
  let ?ws = "py_split (py_strip f)"
  let ?r = "palavras_srt mc ?ws (guardar segs cur, [])"
  have r: "py_strip (snd ?r) = snd ?r"
    by (rule palavras_srt_stripped) (simp_all add: py_strip_split_word)
  have "py_strip (snd (frases_srt mc fs ?r)) = snd (frases_srt mc fs ?r)"
    using Cons.IH[of "snd ?r" "fst ?r"] r by simp
  with Cons show ?case by (simp add: Let_def)
qed

lemma dividir_video_eq_srt:
  "dividir_texto_segmentos config texto =
   dividir_texto_segmentos_srt texto (min (legendas_linhas config * 40) 120) ml"
proof -
  let ?mc = "min (legendas_linhas config * 40) 120"
  let ?fs = "re_split_frases [] (limpar texto)"
  have e: "frases_video ?mc ?fs ([], []) = frases_srt ?mc ?fs ([], [])"
    by (rule frases_video_eq) simp
  have "py_strip (snd (frases_srt ?mc ?fs ([], []))) = snd (frases_srt ?mc ?fs ([], []))"
    by (rule frases_srt_stripped) simp
  then have g: "guardar_video (fst (frases_srt ?mc ?fs ([], []))) (snd (frases_srt ?mc ?fs ([], [])))
       = guardar (fst (frases_srt ?mc ?fs ([], []))) (snd (frases_srt ?mc ?fs ([], [])))"
    by (rule guardar_video_eq)
  show ?thesis
    using g by (simp add: dividir_texto_segmentos_def dividir_texto_segmentos_srt_def Let_def e
        split_beta)
qed

section \<open>Rounding\<close>

declare dobras.simps [simp del] metades.simps [simp del]

lemma arredondar_par_erro: "\<bar>of_int (arredondar_par y) - y\<bar> \<le> 1 / 2"
  unfolding arredondar_par_def Let_def by (auto simp: abs_if) linarith+

lemma arredondar_par_int [simp]: "arredondar_par (of_int n) = n"
  by (simp add: arredondar_par_def)

lemma dobras_norm:
  "0 < y \<Longrightarrow> y < 2 ^ 53 \<Longrightarrow> 2 ^ 52 \<le> y * 2 ^ dobras y \<and> y * 2 ^ dobras y < 2 ^ 53"
proof (induction y rule: dobras.induct)
  case (1 y)
  show ?case
  proof (cases "y < 2 ^ 52")
    case True
    then have e: "dobras y = Suc (dobras (2 * y))" using 1(2) by (subst dobras.simps) simp
    have "2 ^ 52 \<le> 2 * y * 2 ^ dobras (2 * y) \<and> 2 * y * 2 ^ dobras (2 * y) < 2 ^ 53"
      using 1(1) 1(2) True by simp
    then show ?thesis unfolding e by (simp add: mult.assoc mult.left_commute)
  next
    case False
    then have e: "dobras y = 0" by (subst dobras.simps) simp
    from False 1(3) show ?thesis unfolding e by simp
  qed
qed

lemma metades_norm:
  "2 ^ 52 \<le> y \<Longrightarrow> 2 ^ 52 \<le> y / 2 ^ metades y \<and> y / 2 ^ metades y < 2 ^ 53"
proof (induction y rule: metades.induct)
  case (1 y)
  show ?case
  proof (cases "2 ^ 53 \<le> y")
    case True
    then have e: "metades y = Suc (metades (y / 2))" by (subst metades.simps) simp
    have "2 ^ 52 \<le> y / 2" using True by simp
    with 1(1) True have "2 ^ 52 \<le> y / 2 / 2 ^ metades (y / 2) \<and> y / 2 / 2 ^ metades (y / 2) < 2 ^ 53"
      by simp
    then show ?thesis unfolding e by (simp add: field_simps)
  next
    case False
    then have e: "metades y = 0" by (subst metades.simps) simp
    from False 1(2) show ?thesis unfolding e by simp
  qed
qed

lemma dobras_zero: "2 ^ 52 \<le> y \<Longrightarrow> dobras y = 0"
  by (subst dobras.simps) simp

lemma metades_zero: "y < 2 ^ 53 \<Longrightarrow> metades y = 0"
  by (subst metades.simps) simp

lemma escala_norm:
  assumes "0 < y"
  shows "2 ^ 52 \<le> y * 2 ^ dobras y / 2 ^ metades y \<and> y * 2 ^ dobras y / 2 ^ metades y < 2 ^ 53"
proof (cases "y < 2 ^ 52")
  case True
  then have "y < 2 ^ 53" by simp
  with dobras_norm[OF assms] metades_zero[of y] show ?thesis by simp
next
  case False
  then have "2 ^ 52 \<le> y" by simp
  with metades_norm[of y] dobras_zero[of y] show ?thesis by simp
qed


lemma dbl_zero [simp]: "dbl 0 = 0"
  by (simp add: dbl_def)

lemma dbl_minus: "dbl (- x) = - dbl x"
  by (simp add: dbl_def Let_def sgn_minus)

lemma dbl_erro_pos:
  assumes "0 < x"
  shows "\<bar>dbl x - x\<bar> \<le> x / 2 ^ 53"
proof -
  define a where "a = dobras x"
  define b where "b = metades x"
  define s :: real where "s = 2 ^ b / 2 ^ a"
  define z where "z = x * 2 ^ a / 2 ^ b"
  have s: "0 < s" by (simp add: s_def)
  have n: "2 ^ 52 \<le> z" using escala_norm[OF assms] by (simp add: z_def a_def b_def)
  have xz: "x = z * s" by (simp add: z_def s_def)
  have d: "dbl x = of_int (arredondar_par z) * s"
    using assms by (simp add: dbl_def Let_def z_def s_def a_def b_def)
  have "dbl x - x = (of_int (arredondar_par z) - z) * s"
    by (simp add: d left_diff_distrib xz[symmetric])
  then have "\<bar>dbl x - x\<bar> = \<bar>of_int (arredondar_par z) - z\<bar> * s"
    using s by (simp add: abs_mult)
  also have "\<dots> \<le> (1 / 2) * s"
    using s arredondar_par_erro[of z] by (intro mult_right_mono) simp_all
  also have "\<dots> \<le> (z / 2 ^ 53) * s"
    using s n by (intro mult_right_mono) simp_all
  also have "\<dots> = x / 2 ^ 53" by (simp add: xz)
  finally show ?thesis .
qed

lemma dbl_erro: "\<bar>dbl x - x\<bar> \<le> \<bar>x\<bar> / 2 ^ 53"
proof (cases "0 < x")
  case True
  with dbl_erro_pos[of x] show ?thesis by simp
next
  case False
  show ?thesis
  proof (cases "x = 0")
    case True
    then show ?thesis by simp
  next
    case n: False
    with False have "0 < - x" by simp
    from dbl_erro_pos[OF this] show ?thesis
      unfolding dbl_minus by (simp add: abs_minus_commute)
  qed
qed

lemma dbl_pos: "0 < x \<Longrightarrow> 0 < dbl x"
proof -
  assume x: "0 < x"
  have "x / 2 ^ 53 < x" using x by simp
  with dbl_erro_pos[OF x] show ?thesis by linarith
qed

lemma dbl_neg: "x < 0 \<Longrightarrow> dbl x < 0"
  using dbl_pos[of "- x"] by (simp add: dbl_minus)

lemma dbl_eq_0_iff [simp]: "dbl x = 0 \<longleftrightarrow> x = 0"
  by (metis dbl_pos dbl_neg dbl_zero less_irrefl linorder_neqE_linordered_idom)

lemma dbl_nonneg: "0 \<le> x \<Longrightarrow> 0 \<le> dbl x"
  using dbl_pos[of x] by (cases "x = 0") (auto simp: le_less)

lemma dbl_nonpos: "x \<le> 0 \<Longrightarrow> dbl x \<le> 0"
  using dbl_neg[of x] by (cases "x = 0") (auto simp: le_less)

lemma dobras_eq:
  "0 < x \<Longrightarrow> 2 ^ 52 \<le> x * 2 ^ a \<Longrightarrow> x * 2 ^ a < 2 ^ 53 \<Longrightarrow> dobras x = a"
proof (induction a arbitrary: x)
  case 0
  then show ?case by (simp add: dobras_zero)
next
  case (Suc a)
  have "(1::real) \<le> 2 ^ a" by simp
  then have "x * 2 \<le> x * 2 * 2 ^ a" using Suc.prems(1) by simp
  with Suc.prems(3) have "x * 2 < 2 ^ 53" by (simp add: mult.assoc)
  then have lt: "x < 2 ^ 52" by simp
  have "dobras (2 * x) = a"
    using Suc.prems by (intro Suc.IH) (simp_all add: mult.assoc mult.commute mult.left_commute)
  with lt Suc.prems(1) show ?case by (subst dobras.simps) simp
qed

lemma dbl_pos_eq:
  assumes "0 < x" and "2 ^ 52 \<le> x * 2 ^ a" and "x * 2 ^ a < 2 ^ 53"
  shows "dbl x = of_int (arredondar_par (x * 2 ^ a)) / 2 ^ a"
proof -
  have a: "dobras x = a" using assms by (rule dobras_eq)
  have "(1::real) \<le> 2 ^ a" by simp
  then have "x \<le> x * 2 ^ a" using assms(1) by simp
  with assms(3) have "x < 2 ^ 53" by simp
  then have b: "metades x = 0" by (rule metades_zero)
  show ?thesis using assms(1) by (simp add: dbl_def Let_def a b)
qed

lemma dbl_exact:
  assumes "0 < x" and "2 ^ 52 \<le> x * 2 ^ a" and "x * 2 ^ a < 2 ^ 53"
    and "x * 2 ^ a = of_int m"
  shows "dbl x = x"
proof -
  have "dbl x = of_int m / 2 ^ a"
    unfolding dbl_pos_eq[OF assms(1-3)] assms(4) by simp
  also have "\<dots> = x" unfolding assms(4)[symmetric] by simp
  finally show ?thesis .
qed

section \<open>The segmenter never returns an empty list\<close>

text \<open>
  C10. For every input string, \<open>_dividir_texto_segmentos_srt\<close> returns a list with at
  least one element. So in \<open>gerar_srt\<close>, a slide whose text is not blank has a segment
  count of at least one: the step never takes the \<open>num_segmentos == 0\<close> branch, it
  appends the entries of all segments, and the division by the segment count is a
  division by a non-zero number.
\<close>

theorem segmentos_srt_nunca_vazio:
  "dividir_texto_segmentos_srt texto max_chars max_linhas \<noteq> [] \<and>
   (py_strip (texto_srt usar_traducao slide) \<noteq> [] \<longrightarrow>
      (let segmentos = dividir_texto_segmentos_srt (texto_srt usar_traducao slide) mc ml;
           duracao_slide = duracao_slide_srt obter usar_traducao tempo_extra tempo_minimo slide
       in length segmentos \<noteq> 0 \<and>
          srt_slide obter usar_traducao tempo_extra tempo_minimo mc ml st slide =
            \<lparr>entradas = entradas st @
               entradas_slide (tempo_atual st) (contador st)
                 (fdiv duracao_slide (real (length segmentos))) segmentos,
             tempo_atual = fadd (tempo_atual st) duracao_slide,
             contador = contador st + int (length segmentos)\<rparr>))"
proof -
  have ne: "dividir_texto_segmentos_srt t m l \<noteq> []" for t m l
    by (simp add: dividir_texto_segmentos_srt_def Let_def split: prod.splits)
  have blank: "py_strip [] = []" by (simp add: py_strip_def)
  show ?thesis
    using ne blank by (auto simp add: srt_slide_def Let_def)
qed

theorem segmentos_srt_nunca_vazio_witness:
  "py_strip (texto_srt False (slide_exemplo ''a b'')) \<noteq> [] \<and>
   length (dividir_texto_segmentos_srt (texto_srt False (slide_exemplo ''a b'')) 120 2) \<noteq> 0 \<and>
   entradas (srt_slide (\<lambda>_. 0) False (1/2) 3 120 2 estado_inicial (slide_exemplo ''a b''))
     = entradas_slide 0 1 3 [''a b'']"
proof -
  have h: "py_strip (texto_srt False (slide_exemplo ''a b'')) \<noteq> []"
    by (simp add: texto_srt_def slide_exemplo_def py_strip_def isspace_def)
  have s: "dividir_texto_segmentos_srt (texto_srt False (slide_exemplo ''a b'')) 120 2 = [''a b'']"
    by (simp add: texto_srt_def slide_exemplo_def dividir_texto_segmentos_srt_def limpar_def
          py_strip_def isspace_def replace_nl_def)
  have d: "duracao_slide_srt (\<lambda>_. 0) False (1/2) 3 (slide_exemplo ''a b'') = 3"
    by (simp add: duracao_slide_srt_def slide_exemplo_def ou_zero_def)
  have q: "fdiv 3 1 = 3"
    unfolding fdiv_def by (simp add: dbl_exact[where a = 51 and m = "3 * 2 ^ 51"])
  from segmentos_srt_nunca_vazio
         [of "[]" 120 2 False "slide_exemplo ''a b''" 120 2 "\<lambda>_. 0" "1/2" 3 estado_inicial] h
  show ?thesis by (simp add: Let_def s d q estado_inicial_def)
qed

section \<open>Empty input\<close>

text \<open>
  C7, counterexample. On the empty text the subtitle segmenter does not return the empty
  list.
\<close>

theorem segmentos_texto_vazio_counterexample:
  "dividir_texto_segmentos_srt [] 120 2 \<noteq> []"
  by (simp add: dividir_texto_segmentos_srt_def Let_def limpar_def py_strip_def replace_nl_def)

text \<open>
  C7, amended. When the input text is empty, both segmenters return the list whose only
  element is the empty string, whatever the character limit.
\<close>

theorem segmentos_texto_vazio:
  "dividir_texto_segmentos_srt [] max_chars max_linhas = [[]] \<and>
   dividir_texto_segmentos config [] = [[]]"
  by (simp add: dividir_texto_segmentos_srt_def dividir_texto_segmentos_def Let_def limpar_def
        py_strip_def replace_nl_def guardar_def guardar_video_def slice_to_def
      split: prod.splits)

section \<open>Segmentation round-trip\<close>

text \<open>
  C4. For every text and every character limit, the segments of the subtitle segmenter
  and of the caption segmenter, joined with single spaces and whitespace-normalised, give
  the whitespace-normalised text; and the words of the segments, in order, are exactly
  the words of the text: none dropped, duplicated, reordered or altered.
\<close>

theorem segmentacao_round_trip:
  "normalizar (py_join '' '' (dividir_texto_segmentos_srt texto max_chars max_linhas))
     = normalizar texto \<and>
   concat (map py_split (dividir_texto_segmentos_srt texto max_chars max_linhas))
     = py_split texto \<and>
   normalizar (py_join '' '' (dividir_texto_segmentos config texto)) = normalizar texto \<and>
   concat (map py_split (dividir_texto_segmentos config texto)) = py_split texto"
proof -
  have j: "py_split (py_join '' '' xs) = concat (map py_split xs)" for xs
    by (rule py_split_join) simp
  have v: "dividir_texto_segmentos config texto =
      dividir_texto_segmentos_srt texto (min (legendas_linhas config * 40) 120) 2"
    by (rule dividir_video_eq_srt)
  show ?thesis
    by (simp add: normalizar_def j v dividir_srt_words)
qed

section \<open>One packing algorithm for captions and subtitles\<close>

text \<open>
  C9. The caption segmenter of the video generator and the subtitle segmenter return the
  same list of segments for every text, when the subtitle segmenter is given the limit
  the caption segmenter computes from its configuration. Both are functions of their
  input, so two runs on the same input agree.
\<close>

theorem segmentadores_iguais:
  "dividir_texto_segmentos config texto =
   dividir_texto_segmentos_srt texto (min (legendas_linhas config * 40) 120) max_linhas"
  by (rule dividir_video_eq_srt)


section \<open>Segment length\<close>

lemma replace_dbl_word: "\<forall>c\<in>set w. \<not> isspace c \<Longrightarrow> replace_dbl w = w"
  by (induction w rule: replace_dbl.induct) auto

lemma limpar_word: "\<forall>c\<in>set w. \<not> isspace c \<Longrightarrow> limpar w = w"
proof -
  assume a: "\<forall>c\<in>set w. \<not> isspace c"
  then have "\<forall>c\<in>set w. c \<noteq> CHR 0x0A" by auto
  then have "replace_nl w = w" by (simp add: replace_nl_def map_idI)
  with a show ?thesis by (simp add: limpar_def py_strip_word replace_dbl_word)
qed

lemma re_split_frases_word:
  "\<forall>c\<in>set w. \<not> isspace c \<Longrightarrow> re_split_frases cur w = [cur @ w]"
  by (induction cur w rule: re_split_frases.induct) auto

lemma palavra_inteira:
  assumes "w \<noteq> []" and "\<forall>c\<in>set w. \<not> isspace c"
  shows "dividir_texto_segmentos_srt w mc ml = [w]"
proof (cases "int (length w) \<le> mc")
  case True
  with assms show ?thesis by (simp add: dividir_texto_segmentos_srt_def limpar_word)
next
  case False
  have "frases_srt mc [w] ([], []) = ([], w)"
    using False assms by (simp add: py_strip_word py_split_word guardar_def)
  with False assms show ?thesis
    by (simp add: dividir_texto_segmentos_srt_def limpar_word re_split_frases_word guardar_def)
qed

text \<open>
  C5. The claim is that every segment has at most \<open>max_chars\<close> characters, and that a
  text of 300 characters with the limit 120 gives at least three segments of at most 120
  characters each; the docstring of \<open>_dividir_texto_segmentos_srt\<close> says the same
  (\<open>Cada segmento tem no maximo max_chars caracteres\<close>). The code does otherwise: on a
  text of 300 letters without whitespace and the limit 120, the subtitle segmenter and
  the caption segmenter (three lines, so the limit is 120 as well) each return one
  segment, the whole text of 300 characters.
\<close>

theorem segmento_maior_que_o_limite:
  "length texto_300 = 300 \<and>
   dividir_texto_segmentos_srt texto_300 120 2 = [texto_300] \<and>
   dividir_texto_segmentos config_exemplo texto_300 = [texto_300] \<and>
   length (dividir_texto_segmentos_srt texto_300 120 2) = 1 \<and>
   length (hd (dividir_texto_segmentos_srt texto_300 120 2)) = 300"
proof -
  have n: "texto_300 \<noteq> []" and w: "\<forall>c\<in>set texto_300. \<not> isspace c"
    by (simp_all add: texto_300_def isspace_def)
  have s: "dividir_texto_segmentos_srt texto_300 mc ml = [texto_300]" for mc ml
    using n w by (rule palavra_inteira)
  have v: "dividir_texto_segmentos config_exemplo texto_300 = [texto_300]"
    using dividir_video_eq_srt[of config_exemplo texto_300 2] by (simp only: s)
  have l: "length texto_300 = 300" by (simp add: texto_300_def)
  from s v l show ?thesis by simp
qed

section \<open>Words in the subtitle track\<close>

subsection \<open>The line wrap and its first two lines\<close>

lemma words_join_sp: "\<forall>w\<in>set ws. w \<noteq> [] \<and> (\<forall>c\<in>set w. \<not> isspace c) \<Longrightarrow> py_split (py_join '' '' ws) = ws"
proof -
  assume a: "\<forall>w\<in>set ws. w \<noteq> [] \<and> (\<forall>c\<in>set w. \<not> isspace c)"
  have "\<forall>x\<in>set xs. py_split x = [x] \<Longrightarrow> concat (map py_split xs) = xs" for xs
    by (induction xs) auto
  with a have "concat (map py_split ws) = ws" by (simp add: py_split_word)
  then show ?thesis using py_split_join[of "CHR 0x20" ws] by simp
qed

lemma quebrar_linhas_append:
  "quebrar_linhas m ps (L, la, t) = L @ quebrar_linhas m ps ([], la, t)"
proof (induction ps arbitrary: L la t)
  case Nil
  show ?case by simp
next
  case (Cons p ps)
  show ?case
  proof (cases "t + int (length p) + 1 \<le> m")
    case True
    then show ?thesis using Cons.IH[of L "la @ [p]" "t + (int (length p) + 1)"] by simp
  next
    case False
    show ?thesis
    proof (cases "la = []")
      case True
      with False show ?thesis using Cons.IH[of L "[p]" "int (length p)"] by simp
    next
      case n: False
      have a: "quebrar_linhas m ps (L @ [py_join '' '' la], [p], int (length p)) =
               (L @ [py_join '' '' la]) @ quebrar_linhas m ps ([], [p], int (length p))"
        by (rule Cons.IH)
      have b: "quebrar_linhas m ps ([py_join '' '' la], [p], int (length p)) =
               [py_join '' '' la] @ quebrar_linhas m ps ([], [p], int (length p))"
        by (rule Cons.IH)
      from False n show ?thesis by (simp add: a b)
    qed
  qed
qed

lemma linhas_srt_quebrar:
  assumes "linhas_srt m ps (L, la, t) = (L', la', t')"
  shows "take 2 (if la' \<noteq> [] \<and> length L' < 2 then L' @ [py_join '' '' la'] else L') =
         take 2 (quebrar_linhas m ps (L, la, t))"
  using assms
proof (induction ps arbitrary: L la t)
  case Nil
  then show ?case by auto
next
  case (Cons p ps)
  let ?L1 = "if la \<noteq> [] then L @ [py_join '' '' la] else L"
  show ?case
  proof (cases "t + int (length p) + 1 \<le> m")
    case True
    with Cons.prems have e: "linhas_srt m ps (L, la @ [p], t + (int (length p) + 1)) = (L', la', t')"
      by simp
    from Cons.IH[OF e] True show ?thesis by simp
  next
    case False
    then have q: "quebrar_linhas m (p # ps) (L, la, t) = quebrar_linhas m ps (?L1, [p], int (length p))"
      by simp
    show ?thesis
    proof (cases "length ?L1 \<ge> 2")
      case True
      with False Cons.prems have r: "L' = ?L1" "la' = [p]"
        by (simp_all add: Let_def)
      have "take 2 (quebrar_linhas m ps (?L1, [p], int (length p))) = take 2 ?L1"
        using True by (subst quebrar_linhas_append) simp
      with r True show ?thesis unfolding q by simp
    next
      case n: False
      with False Cons.prems have e: "linhas_srt m ps (?L1, [p], int (length p)) = (L', la', t')"
        by (simp add: Let_def)
      from Cons.IH[OF e] show ?thesis unfolding q .
    qed
  qed
qed

lemma quebrar_linhas_palavras:
  assumes "\<forall>w\<in>set (la @ ps). w \<noteq> [] \<and> (\<forall>c\<in>set w. \<not> isspace c)"
  shows "concat (map py_split (quebrar_linhas m ps (L, la, t))) = concat (map py_split L) @ la @ ps"
  using assms
proof (induction ps arbitrary: L la t)
  case Nil
  then have "py_split (py_join '' '' la) = la" by (intro words_join_sp) auto
  then show ?case by simp
next
  case (Cons p ps)
  let ?L1 = "if la \<noteq> [] then L @ [py_join '' '' la] else L"
  have la: "py_split (py_join '' '' la) = la"
    using Cons.prems by (intro words_join_sp) auto
  have L1: "concat (map py_split ?L1) = concat (map py_split L) @ la"
    using la by simp
  show ?case
  proof (cases "t + int (length p) + 1 \<le> m")
    case True
    have "\<forall>w\<in>set ((la @ [p]) @ ps). w \<noteq> [] \<and> (\<forall>c\<in>set w. \<not> isspace c)"
      using Cons.prems by auto
    from Cons.IH[OF this] True show ?thesis by simp
  next
    case False
    then have q: "quebrar_linhas m (p # ps) (L, la, t) = quebrar_linhas m ps (?L1, [p], int (length p))"
      by simp
    have "\<forall>w\<in>set ([p] @ ps). w \<noteq> [] \<and> (\<forall>c\<in>set w. \<not> isspace c)"
      using Cons.prems by auto
    from Cons.IH[OF this, of ?L1 "int (length p)"]
    have "concat (map py_split (quebrar_linhas m ps (?L1, [p], int (length p)))) =
          concat (map py_split ?L1) @ [p] @ ps" .
    then show ?thesis unfolding q L1 by simp
  qed
qed

lemma quebrar_linhas_nao_vazias:
  assumes "\<forall>w\<in>set (la @ ps). w \<noteq> [] \<and> (\<forall>c\<in>set w. \<not> isspace c)"
    and "\<forall>l\<in>set L. py_split l \<noteq> []"
  shows "\<forall>l\<in>set (quebrar_linhas m ps (L, la, t)). py_split l \<noteq> []"
  using assms
proof (induction ps arbitrary: L la t)
  case Nil
  then have "py_split (py_join '' '' la) = la" by (intro words_join_sp) auto
  with Nil.prems(2) show ?case by auto
next
  case (Cons p ps)
  let ?L1 = "if la \<noteq> [] then L @ [py_join '' '' la] else L"
  have la: "py_split (py_join '' '' la) = la"
    using Cons.prems(1) by (intro words_join_sp) auto
  have L1: "\<forall>l\<in>set ?L1. py_split l \<noteq> []"
    using la Cons.prems(2) by auto
  show ?case
  proof (cases "t + int (length p) + 1 \<le> m")
    case True
    have "\<forall>w\<in>set ((la @ [p]) @ ps). w \<noteq> [] \<and> (\<forall>c\<in>set w. \<not> isspace c)"
      using Cons.prems(1) by auto
    from Cons.IH[OF this Cons.prems(2)] True show ?thesis by simp
  next
    case False
    then have q: "quebrar_linhas m (p # ps) (L, la, t) = quebrar_linhas m ps (?L1, [p], int (length p))"
      by simp
    have "\<forall>w\<in>set ([p] @ ps). w \<noteq> [] \<and> (\<forall>c\<in>set w. \<not> isspace c)"
      using Cons.prems(1) by auto
    from Cons.IH[OF this L1] show ?thesis unfolding q .
  qed
qed

lemma formatar_texto_srt_quebrar:
  "formatar_texto_srt seg m =
     (if int (length (limpar seg)) \<le> m then limpar seg
      else py_join [CHR 0x0A] (take 2 (quebrar_linhas m (py_split seg) ([], [], 0))))"
proof (cases "int (length (limpar seg)) \<le> m")
  case True
  then show ?thesis by (simp add: formatar_texto_srt_def)
next
  case False
  obtain L la t where r: "linhas_srt m (py_split seg) ([], [], 0) = (L, la, t)"
    by (cases "linhas_srt m (py_split seg) ([], [], 0)") auto
  from linhas_srt_quebrar[OF r] False r show ?thesis
    by (simp add: formatar_texto_srt_def Let_def)
qed

lemma quebrar_linhas_segmento:
  "concat (map py_split (quebrar_linhas m (py_split seg) ([], [], 0))) = py_split seg"
proof -
  have "\<forall>w\<in>set ([] @ py_split seg). w \<noteq> [] \<and> (\<forall>c\<in>set w. \<not> isspace c)"
    using py_split_words by auto
  from quebrar_linhas_palavras[OF this] show ?thesis by simp
qed

lemma formatar_texto_srt_palavras:
  "py_split (formatar_texto_srt seg m) =
     (if int (length (limpar seg)) \<le> m then py_split seg
      else concat (map py_split (take 2 (quebrar_linhas m (py_split seg) ([], [], 0)))))"
  using py_split_join[of "CHR 0x0A" "take 2 (quebrar_linhas m (py_split seg) ([], [], 0))"]
  by (simp add: formatar_texto_srt_quebrar)

lemma formatar_texto_srt_prefix:
  "prefix (py_split (formatar_texto_srt seg m)) (py_split seg)"
proof -
  let ?Q = "quebrar_linhas m (py_split seg) ([], [], 0)"
  have "prefix (concat (map py_split (take 2 ?Q))) (concat (map py_split ?Q))"
    by (metis append_take_drop_id concat_append map_append prefixI)
  then show ?thesis
    by (simp add: formatar_texto_srt_palavras quebrar_linhas_segmento)
qed

lemma formatar_texto_srt_completo:
  "py_split (formatar_texto_srt seg m) = py_split seg \<longleftrightarrow>
     int (length (limpar seg)) \<le> m \<or> length (quebrar_linhas m (py_split seg) ([], [], 0)) \<le> 2"
proof (cases "int (length (limpar seg)) \<le> m")
  case True
  then show ?thesis by (simp add: formatar_texto_srt_palavras)
next
  case False
  let ?Q = "quebrar_linhas m (py_split seg) ([], [], 0)"
  have w: "\<forall>w\<in>set ([] @ py_split seg). w \<noteq> [] \<and> (\<forall>c\<in>set w. \<not> isspace c)"
    using py_split_words by auto
  have nv: "\<forall>l\<in>set ?Q. py_split l \<noteq> []"
    by (rule quebrar_linhas_nao_vazias[OF w]) simp
  have s: "concat (map py_split (take 2 ?Q)) @ concat (map py_split (drop 2 ?Q)) = py_split seg"
    using quebrar_linhas_segmento[of m seg]
    by (metis append_take_drop_id concat_append map_append)
  have d: "concat (map py_split (drop 2 ?Q)) = [] \<longleftrightarrow> length ?Q \<le> 2"
  proof
    assume e: "concat (map py_split (drop 2 ?Q)) = []"
    show "length ?Q \<le> 2"
    proof (rule ccontr)
      assume "\<not> length ?Q \<le> 2"
      then have "drop 2 ?Q \<noteq> []" by simp
      then obtain l ls where c: "drop 2 ?Q = l # ls" by (cases "drop 2 ?Q") auto
      then have "l \<in> set ?Q" by (metis in_set_dropD list.set_intros(1))
      with nv have "py_split l \<noteq> []" by simp
      with e c show False by simp
    qed
  next
    assume "length ?Q \<le> 2"
    then show "concat (map py_split (drop 2 ?Q)) = []" by simp
  qed
  have "concat (map py_split (take 2 ?Q)) = py_split seg \<longleftrightarrow> concat (map py_split (drop 2 ?Q)) = []"
    using s by (metis append_Nil2 same_append_eq)
  with d False show ?thesis by (simp add: formatar_texto_srt_palavras)
qed

lemma map_enumerate_snd: "(\<And>i x. f (i, x) = g x) \<Longrightarrow> map f (enumerate n xs) = map g xs"
  by (induction xs arbitrary: n) auto

lemma entradas_slide_textos:
  "map texto_formatado (entradas_slide t0 c0 d segs) = map (\<lambda>s. formatar_texto_srt s 60) segs"
  unfolding entradas_slide_def map_map by (rule map_enumerate_snd) (simp add: Let_def)

lemma concat_prefix_length:
  "\<forall>s\<in>set xs. prefix (f s) (g s) \<Longrightarrow> length (concat (map f xs)) \<le> length (concat (map g xs))"
proof (induction xs)
  case Nil
  show ?case by simp
next
  case (Cons x xs)
  then have "length (f x) \<le> length (g x)" by (simp add: prefix_length_le)
  with Cons show ?case by simp
qed

lemma concat_prefix_eq:
  assumes "\<forall>s\<in>set xs. prefix (f s) (g s)"
  shows "concat (map f xs) = concat (map g xs) \<longleftrightarrow> list_all (\<lambda>s. f s = g s) xs"
  using assms
proof (induction xs)
  case Nil
  show ?case by simp
next
  case (Cons x xs)
  from Cons.prems obtain r where r: "g x = f x @ r" by (auto simp: prefix_def)
  have p: "\<forall>s\<in>set xs. prefix (f s) (g s)" using Cons.prems by simp
  have l: "length (concat (map f xs)) \<le> length (concat (map g xs))"
    using p by (rule concat_prefix_length)
  show ?case
  proof
    assume e: "concat (map f (x # xs)) = concat (map g (x # xs))"
    then have a: "concat (map f xs) = r @ concat (map g xs)" by (simp add: r)
    then have "length (concat (map f xs)) = length r + length (concat (map g xs))" by simp
    with l have "r = []" by simp
    with a Cons.IH[OF p] r show "list_all (\<lambda>s. f s = g s) (x # xs)" by simp
  next
    assume "list_all (\<lambda>s. f s = g s) (x # xs)"
    with Cons.IH[OF p] show "concat (map f (x # xs)) = concat (map g (x # xs))" by simp
  qed
qed

lemma srt_slide_entradas:
  assumes "py_strip (texto_srt u slide) \<noteq> []"
  shows "entradas (srt_slide obter u te tm mc ml st slide) =
         entradas st @
         entradas_slide (tempo_atual st) (contador st)
           (fdiv (duracao_slide_srt obter u te tm slide)
              (real (length (dividir_texto_segmentos_srt (texto_srt u slide) mc ml))))
           (dividir_texto_segmentos_srt (texto_srt u slide) mc ml)"
proof -
  have ne: "dividir_texto_segmentos_srt t m l \<noteq> []" for t m l
    by (simp add: dividir_texto_segmentos_srt_def Let_def split: prod.splits)
  have blank: "py_strip [] = []" by (simp add: py_strip_def)
  show ?thesis using assms ne blank by (auto simp add: srt_slide_def Let_def)
qed

subsection \<open>The claim\<close>

text \<open>
  C8, counterexample. A slide whose narration is three words of thirty letters has one
  subtitle entry, and the words of that entry are not the words of the narration: the
  wrap at 60 characters needs three lines, keeps two, and the third word is gone.
\<close>

theorem legendas_perdem_palavras_counterexample:
  "concat (map (py_split \<circ> texto_formatado)
     (entradas (srt_slide sem_audio False (1/2) 3 120 2 estado_inicial
        (slide_exemplo texto_tres_linhas))))
   \<noteq> py_split texto_tres_linhas"
proof -
  have l: "limpar texto_tres_linhas = texto_tres_linhas"
    by (simp add: limpar_def texto_tres_linhas_def py_strip_def isspace_def replace_nl_def)
  have w: "py_split texto_tres_linhas =
    [''aaaaaaaaaaaaaaaaaaaaaaaaaaaaaa'', ''bbbbbbbbbbbbbbbbbbbbbbbbbbbbbb'',
     ''cccccccccccccccccccccccccccccc'']"
    by (simp add: texto_tres_linhas_def py_split_def isspace_def)
  have n: "length texto_tres_linhas = 92" by (simp add: texto_tres_linhas_def)
  have s: "dividir_texto_segmentos_srt texto_tres_linhas 120 2 = [texto_tres_linhas]"
    by (simp add: dividir_texto_segmentos_srt_def l n)
  have f: "formatar_texto_srt texto_tres_linhas 60 =
     ''aaaaaaaaaaaaaaaaaaaaaaaaaaaaaa'' @ [CHR 0x0A] @ ''bbbbbbbbbbbbbbbbbbbbbbbbbbbbbb''"
    by (simp add: formatar_texto_srt_def l n w)
  have b: "py_strip texto_tres_linhas \<noteq> []"
    by (simp add: texto_tres_linhas_def py_strip_def isspace_def)
  have t: "texto_srt False (slide_exemplo texto_tres_linhas) = texto_tres_linhas"
    by (simp add: texto_srt_def slide_exemplo_def)
  have e: "map texto_formatado (entradas (srt_slide sem_audio False (1/2) 3 120 2 estado_inicial
        (slide_exemplo texto_tres_linhas))) = [formatar_texto_srt texto_tres_linhas 60]"
    using b n by (auto simp add: srt_slide_def t s entradas_slide_def estado_inicial_def Let_def)
  have "py_split (formatar_texto_srt texto_tres_linhas 60) =
     [''aaaaaaaaaaaaaaaaaaaaaaaaaaaaaa'', ''bbbbbbbbbbbbbbbbbbbbbbbbbbbbbb'']"
    unfolding f by (simp add: py_split_def isspace_def)
  with e w show ?thesis
    by (simp add: map_map[symmetric] del: map_map)
qed

text \<open>
  C8, amended. For every slide whose narration (the text \<open>gerar_srt\<close> picks) is not
  blank: the words of the narration are, in order, the words of the slide's segments;
  the slide adds one subtitle entry for each segment; the text of an entry is the
  whitespace-cleaned segment itself when that has at most 60 characters, and otherwise
  the first two lines of the segment's wrap at 60 characters a line, joined by a
  newline; the wrap itself, taken to its end, holds every word of the segment. So the
  words of an entry are a prefix of the words of its segment, and they are all of them
  exactly when the segment has at most 60 characters or wraps into at most two lines;
  and the entries of the slide hold every word of the narration, in order, exactly when
  every segment does so. Words from the third line of a wrap on are dropped from the
  subtitle track, with no ellipsis.
\<close>

theorem legendas_duas_linhas:
  "py_strip (texto_srt usar_traducao slide) \<noteq> [] \<longrightarrow>
   (let texto = texto_srt usar_traducao slide;
        segmentos = dividir_texto_segmentos_srt texto max_chars max_linhas;
        novas = drop (length (entradas st))
                  (entradas (srt_slide obter usar_traducao tempo_extra tempo_minimo
                               max_chars max_linhas st slide));
        quebra = (\<lambda>s. quebrar_linhas 60 (py_split s) ([], [], 0));
        cabe = (\<lambda>s. int (length (limpar s)) \<le> 60 \<or> length (quebra s) \<le> 2)
    in concat (map py_split segmentos) = py_split texto \<and>
       map texto_formatado novas = map (\<lambda>s. formatar_texto_srt s 60) segmentos \<and>
       list_all (\<lambda>s. formatar_texto_srt s 60 =
                   (if int (length (limpar s)) \<le> 60 then limpar s
                    else py_join [CHR 0x0A] (take 2 (quebra s)))) segmentos \<and>
       list_all (\<lambda>s. concat (map py_split (quebra s)) = py_split s) segmentos \<and>
       list_all (\<lambda>s. prefix (py_split (formatar_texto_srt s 60)) (py_split s)) segmentos \<and>
       list_all (\<lambda>s. (py_split (formatar_texto_srt s 60) = py_split s) = cabe s) segmentos \<and>
       (concat (map (py_split \<circ> texto_formatado) novas) = py_split texto) = list_all cabe segmentos)"
proof
  assume ne: "py_strip (texto_srt usar_traducao slide) \<noteq> []"
  let ?texto = "texto_srt usar_traducao slide"
  let ?segs = "dividir_texto_segmentos_srt ?texto max_chars max_linhas"
  let ?novas = "drop (length (entradas st))
                  (entradas (srt_slide obter usar_traducao tempo_extra tempo_minimo
                               max_chars max_linhas st slide))"
  let ?cabe = "\<lambda>s. int (length (limpar s)) \<le> 60 \<or> length (quebrar_linhas 60 (py_split s) ([], [], 0)) \<le> 2"
  have a: "concat (map py_split ?segs) = py_split ?texto" by (rule dividir_srt_words)
  have b: "map texto_formatado ?novas = map (\<lambda>s. formatar_texto_srt s 60) ?segs"
    unfolding srt_slide_entradas[OF ne] by (simp add: entradas_slide_textos)
  have c: "list_all (\<lambda>s. formatar_texto_srt s 60 =
                   (if int (length (limpar s)) \<le> 60 then limpar s
                    else py_join [CHR 0x0A] (take 2 (quebrar_linhas 60 (py_split s) ([], [], 0))))) ?segs"
    unfolding list_all_iff using formatar_texto_srt_quebrar by blast
  have d: "list_all (\<lambda>s. concat (map py_split (quebrar_linhas 60 (py_split s) ([], [], 0))) = py_split s) ?segs"
    unfolding list_all_iff using quebrar_linhas_segmento by blast
  have e: "list_all (\<lambda>s. prefix (py_split (formatar_texto_srt s 60)) (py_split s)) ?segs"
    unfolding list_all_iff using formatar_texto_srt_prefix by blast
  have f: "list_all (\<lambda>s. (py_split (formatar_texto_srt s 60) = py_split s) = ?cabe s) ?segs"
    unfolding list_all_iff using formatar_texto_srt_completo by blast
  have "concat (map (py_split \<circ> texto_formatado) ?novas) =
        concat (map (\<lambda>s. py_split (formatar_texto_srt s 60)) ?segs)"
    using b by (metis (no_types, lifting) map_map o_def map_eq_conv)
  moreover have "(concat (map (\<lambda>s. py_split (formatar_texto_srt s 60)) ?segs) =
          concat (map py_split ?segs)) =
        list_all (\<lambda>s. py_split (formatar_texto_srt s 60) = py_split s) ?segs"
    by (rule concat_prefix_eq) (simp add: formatar_texto_srt_prefix)
  moreover have "list_all (\<lambda>s. py_split (formatar_texto_srt s 60) = py_split s) ?segs =
        list_all ?cabe ?segs"
    by (simp add: formatar_texto_srt_completo)
  ultimately have g: "(concat (map (py_split \<circ> texto_formatado) ?novas) = py_split ?texto) =
        list_all ?cabe ?segs"
    using a by simp
  from a b c d e f g show "let texto = texto_srt usar_traducao slide;
        segmentos = dividir_texto_segmentos_srt texto max_chars max_linhas;
        novas = drop (length (entradas st))
                  (entradas (srt_slide obter usar_traducao tempo_extra tempo_minimo
                               max_chars max_linhas st slide));
        quebra = (\<lambda>s. quebrar_linhas 60 (py_split s) ([], [], 0));
        cabe = (\<lambda>s. int (length (limpar s)) \<le> 60 \<or> length (quebra s) \<le> 2)
    in concat (map py_split segmentos) = py_split texto \<and>
       map texto_formatado novas = map (\<lambda>s. formatar_texto_srt s 60) segmentos \<and>
       list_all (\<lambda>s. formatar_texto_srt s 60 =
                   (if int (length (limpar s)) \<le> 60 then limpar s
                    else py_join [CHR 0x0A] (take 2 (quebra s)))) segmentos \<and>
       list_all (\<lambda>s. concat (map py_split (quebra s)) = py_split s) segmentos \<and>
       list_all (\<lambda>s. prefix (py_split (formatar_texto_srt s 60)) (py_split s)) segmentos \<and>
       list_all (\<lambda>s. (py_split (formatar_texto_srt s 60) = py_split s) = cabe s) segmentos \<and>
       (concat (map (py_split \<circ> texto_formatado) novas) = py_split texto) = list_all cabe segmentos"
    unfolding Let_def by blast
qed

theorem legendas_duas_linhas_witness:
  "py_strip (texto_srt False (slide_exemplo texto_duas_linhas)) \<noteq> [] \<and>
   length texto_duas_linhas = 61 \<and>
   dividir_texto_segmentos_srt texto_duas_linhas 120 2 = [texto_duas_linhas] \<and>
   quebrar_linhas 60 (py_split texto_duas_linhas) ([], [], 0) =
     [''aaaaaaaaaaaaaaaaaaaaaaaaaaaaaa'', ''bbbbbbbbbbbbbbbbbbbbbbbbbbbbbb''] \<and>
   formatar_texto_srt texto_duas_linhas 60 =
     ''aaaaaaaaaaaaaaaaaaaaaaaaaaaaaa'' @ [CHR 0x0A] @ ''bbbbbbbbbbbbbbbbbbbbbbbbbbbbbb'' \<and>
   concat (map (py_split \<circ> texto_formatado)
     (entradas (srt_slide sem_audio False (1/2) 3 120 2 estado_inicial
        (slide_exemplo texto_duas_linhas)))) = py_split texto_duas_linhas"
proof -
  have l: "limpar texto_duas_linhas = texto_duas_linhas"
    by (simp add: limpar_def texto_duas_linhas_def py_strip_def isspace_def replace_nl_def)
  have w: "py_split texto_duas_linhas =
    [''aaaaaaaaaaaaaaaaaaaaaaaaaaaaaa'', ''bbbbbbbbbbbbbbbbbbbbbbbbbbbbbb'']"
    by (simp add: texto_duas_linhas_def py_split_def isspace_def)
  have n: "length texto_duas_linhas = 61" by (simp add: texto_duas_linhas_def)
  have s: "dividir_texto_segmentos_srt texto_duas_linhas 120 2 = [texto_duas_linhas]"
    by (simp add: dividir_texto_segmentos_srt_def l n)
  have q: "quebrar_linhas 60 (py_split texto_duas_linhas) ([], [], 0) =
     [''aaaaaaaaaaaaaaaaaaaaaaaaaaaaaa'', ''bbbbbbbbbbbbbbbbbbbbbbbbbbbbbb'']"
    unfolding w by simp
  have b: "py_strip texto_duas_linhas \<noteq> []"
    by (simp add: texto_duas_linhas_def py_strip_def isspace_def)
  have t: "texto_srt False (slide_exemplo texto_duas_linhas) = texto_duas_linhas"
    by (simp add: texto_srt_def slide_exemplo_def)
  have e: "entradas estado_inicial = []" by (simp add: estado_inicial_def)
  have f: "formatar_texto_srt texto_duas_linhas 60 =
     ''aaaaaaaaaaaaaaaaaaaaaaaaaaaaaa'' @ [CHR 0x0A] @ ''bbbbbbbbbbbbbbbbbbbbbbbbbbbbbb''"
    by (simp add: formatar_texto_srt_def l n w)
  have c: "list_all (\<lambda>s. int (length (limpar s)) \<le> 60 \<or>
                        length (quebrar_linhas 60 (py_split s) ([], [], 0)) \<le> 2)
             (dividir_texto_segmentos_srt texto_duas_linhas 120 2)"
    unfolding s by (simp add: q)
  from legendas_duas_linhas[of False "slide_exemplo texto_duas_linhas" 120 2 estado_inicial
         sem_audio "1/2" 3] b
  have "concat (map (py_split \<circ> texto_formatado)
     (entradas (srt_slide sem_audio False (1/2) 3 120 2 estado_inicial
        (slide_exemplo texto_duas_linhas)))) = py_split texto_duas_linhas"
    unfolding t Let_def e using c by simp
  with b n s q f show ?thesis unfolding t by blast
qed

section \<open>The subtitle track\<close>

lemma entradas_slide_length [simp]: "length (entradas_slide t c d segs) = length segs"
  by (simp add: entradas_slide_def)

lemma entradas_slide_nth:
  "k < length segs \<Longrightarrow>
   entradas_slide t c d segs ! k =
     \<lparr>indice = c + int k, inicio = fadd t (fmul (real k) d),
      fim = fadd (fadd t (fmul (real k) d)) d,
      texto_formatado = formatar_texto_srt (segs ! k) 60\<rparr>"
  by (simp add: entradas_slide_def nth_enumerate_eq Let_def)

subsection \<open>A narration of ten sentences\<close>

lemma replace_dbl_length: "length (replace_dbl s) \<le> length s"
  by (induction s rule: replace_dbl.induct) auto

lemma replace_dbl_append:
  "replace_dbl a = a \<Longrightarrow> a \<noteq> [] \<Longrightarrow> last a \<noteq> CHR 0x20 \<Longrightarrow> replace_dbl (a @ b) = a @ replace_dbl b"
proof (induction a rule: replace_dbl.induct)
  case 1
  then show ?case by simp
next
  case (2 c)
  then show ?case by (cases b) auto
next
  case (3 c d cs)
  show ?case
  proof (cases "c = CHR 0x20 \<and> d = CHR 0x20")
    case True
    with 3(3) have "length (replace_dbl cs) = Suc (length cs)"
      by (metis length_Cons list.inject replace_dbl.simps(3))
    with replace_dbl_length[of cs] show ?thesis by simp
  next
    case False
    with 3(3) have e: "replace_dbl (d # cs) = d # cs" by auto
    from 3(5) have l: "last (d # cs) \<noteq> CHR 0x20" by simp
    from 3(2)[OF False e _ l] False show ?thesis by auto
  qed
qed

lemma re_split_frases_frase:
  "\<forall>c\<in>set f. \<not> is_fim_frase c \<Longrightarrow> is_fim_frase p \<Longrightarrow> \<not> isspace r \<Longrightarrow>
   re_split_frases cur (f @ p # CHR 0x20 # r # rest) = (cur @ f @ [p]) # re_split_frases [] (r # rest)"
proof (induction f arbitrary: cur)
  case Nil
  then show ?case by simp
next
  case (Cons c f)
  have "re_split_frases cur ((c # f) @ p # CHR 0x20 # r # rest) =
        re_split_frases (cur @ [c]) (f @ p # CHR 0x20 # r # rest)"
    using Cons.prems(1) by (cases f) simp_all
  also have "\<dots> = ((cur @ [c]) @ f @ [p]) # re_split_frases [] (r # rest)"
    using Cons.prems by (intro Cons.IH) auto
  finally show ?case by simp
qed

lemma re_split_frases_ultima:
  "\<forall>c\<in>set f. \<not> is_fim_frase c \<Longrightarrow> re_split_frases cur (f @ [p]) = [cur @ f @ [p]]"
proof (induction f arbitrary: cur)
  case Nil
  show ?case by simp
next
  case (Cons c f)
  have "re_split_frases cur ((c # f) @ [p]) = re_split_frases (cur @ [c]) (f @ [p])"
    using Cons.prems by (cases f) simp_all
  also have "\<dots> = [(cur @ [c]) @ f @ [p]]"
    using Cons.prems by (intro Cons.IH) auto
  finally show ?case by simp
qed

lemma frase_70_partes:
  "frase_70 = butlast frase_70 @ [CHR ''.'']" "\<forall>c\<in>set (butlast frase_70). \<not> is_fim_frase c"
  by (simp_all add: frase_70_def is_fim_frase_def)

lemma frase_70_limpa:
  "frase_70 \<noteq> []" "\<not> isspace (hd frase_70)" "\<not> isspace (last frase_70)"
  "last frase_70 \<noteq> CHR 0x20" "hd frase_70 \<noteq> CHR 0x20"
  "replace_nl frase_70 = frase_70" "replace_dbl frase_70 = frase_70" "length frase_70 = 70"
  by (simp_all add: frase_70_def isspace_def replace_nl_def)

lemma frase_70_strip: "py_strip frase_70 = frase_70"
  by (rule py_strip_id) (simp add: frase_70_limpa)

lemma juntar_frases:
  "py_join '' '' (replicate (Suc (Suc n)) frase_70) =
   frase_70 @ CHR 0x20 # py_join '' '' (replicate (Suc n) frase_70)"
  by simp

lemma juntar_frases_pontas:
  "py_join '' '' (replicate (Suc n) frase_70) \<noteq> [] \<and>
   hd (py_join '' '' (replicate (Suc n) frase_70)) = hd frase_70 \<and>
   last (py_join '' '' (replicate (Suc n) frase_70)) = last frase_70 \<and>
   length (py_join '' '' (replicate (Suc n) frase_70)) = 71 * n + 70"
proof (induction n)
  case 0
  show ?case by (simp add: frase_70_limpa)
next
  case (Suc n)
  then show ?case unfolding juntar_frases using frase_70_limpa(1,8) by simp
qed

lemma juntar_frases_strip:
  "py_strip (py_join '' '' (replicate (Suc n) frase_70)) = py_join '' '' (replicate (Suc n) frase_70)"
  using juntar_frases_pontas[of n] frase_70_limpa by (intro py_strip_id) simp

lemma juntar_frases_limpar:
  "limpar (py_join '' '' (replicate (Suc n) frase_70)) = py_join '' '' (replicate (Suc n) frase_70)"
proof -
  let ?J = "\<lambda>n. py_join '' '' (replicate (Suc n) frase_70)"
  have s: "py_strip (?J n) = ?J n" by (rule juntar_frases_strip)
  have nl: "replace_nl (?J n) = ?J n"
  proof (induction n)
    case 0
    show ?case by (simp add: frase_70_limpa)
  next
    case (Suc n)
    have "replace_nl (a @ b) = replace_nl a @ replace_nl b" for a b
      by (simp add: replace_nl_def)
    moreover have "replace_nl (CHR 0x20 # b) = CHR 0x20 # replace_nl b" for b
      by (simp add: replace_nl_def)
    ultimately show ?case unfolding juntar_frases using Suc frase_70_limpa(6) by simp
  qed
  have dbl: "replace_dbl (?J n) = ?J n"
  proof (induction n)
    case 0
    show ?case by (simp add: frase_70_limpa)
  next
    case (Suc n)
    obtain r rs where j: "?J n = r # rs" "r \<noteq> CHR 0x20"
      using juntar_frases_pontas[of n] frase_70_limpa(5) by (cases "?J n") auto
    have "replace_dbl (frase_70 @ CHR 0x20 # ?J n) = frase_70 @ replace_dbl (CHR 0x20 # ?J n)"
      using frase_70_limpa by (intro replace_dbl_append) simp_all
    also have "replace_dbl (CHR 0x20 # ?J n) = CHR 0x20 # replace_dbl (?J n)"
      unfolding j using j(2) by simp
    finally show ?case unfolding juntar_frases using Suc by simp
  qed
  show ?thesis unfolding limpar_def s nl dbl ..
qed

lemma juntar_frases_split:
  "re_split_frases [] (py_join '' '' (replicate (Suc n) frase_70)) = replicate (Suc n) frase_70"
proof (induction n)
  case 0
  have "re_split_frases [] (butlast frase_70 @ [CHR ''.'']) = [[] @ butlast frase_70 @ [CHR ''.'']]"
    using frase_70_partes(2) by (rule re_split_frases_ultima)
  then show ?case using frase_70_partes(1) by simp
next
  case (Suc n)
  let ?J = "py_join '' '' (replicate (Suc n) frase_70)"
  obtain r rs where j: "?J = r # rs" "\<not> isspace r"
    using juntar_frases_pontas[of n] frase_70_limpa(2) by (cases ?J) auto
  have e: "frase_70 @ CHR 0x20 # ?J = butlast frase_70 @ CHR ''.'' # CHR 0x20 # r # rs"
    using frase_70_partes(1) j(1) by (metis append.assoc append_Cons append_Nil)
  have "re_split_frases [] (py_join '' '' (replicate (Suc (Suc n)) frase_70)) =
        re_split_frases [] (butlast frase_70 @ CHR ''.'' # CHR 0x20 # r # rs)"
    unfolding juntar_frases e ..
  also have "\<dots> = ([] @ butlast frase_70 @ [CHR ''.'']) # re_split_frases [] (r # rs)"
    using frase_70_partes(2) j(2) by (intro re_split_frases_frase) (simp_all add: is_fim_frase_def)
  also have "[] @ butlast frase_70 @ [CHR ''.''] = frase_70"
    using frase_70_partes(1) by simp
  also have "re_split_frases [] (r # rs) = replicate (Suc n) frase_70"
    unfolding j(1)[symmetric] by (rule Suc)
  finally show ?case by simp
qed

lemma frases_srt_frase_70:
  "frases_srt 120 (replicate n frase_70) (segs, frase_70) = (segs @ replicate n frase_70, frase_70)"
proof (induction n arbitrary: segs)
  case 0
  show ?case by simp
next
  case (Suc n)
  have "frases_srt 120 (replicate (Suc n) frase_70) (segs, frase_70) =
        frases_srt 120 (replicate n frase_70) (segs @ [frase_70], frase_70)"
    using frase_70_limpa(1,8) by (simp add: frase_70_strip guardar_def)
  then show ?case unfolding Suc by (simp add: replicate_app_Cons_same)
qed

lemma segmentos_dez_frases:
  "dividir_texto_segmentos_srt texto_dez_frases 120 2 = replicate 10 frase_70"
proof -
  have t: "texto_dez_frases = py_join '' '' (replicate (Suc 9) frase_70)"
    by (simp add: texto_dez_frases_def)
  have l: "limpar texto_dez_frases = texto_dez_frases"
    unfolding t by (rule juntar_frases_limpar)
  have n: "length texto_dez_frases = 709"
    unfolding t using juntar_frases_pontas[of 9] by simp
  have r: "re_split_frases [] texto_dez_frases = frase_70 # replicate 9 frase_70"
    unfolding t juntar_frases_split by (simp only: replicate.simps)
  have "py_strip (CHR 0x20 # frase_70) = frase_70"
    using frase_70_strip by (simp add: py_strip_def)
  then have "frases_srt 120 (frase_70 # replicate 9 frase_70) ([], []) =
        frases_srt 120 (replicate 9 frase_70) ([], frase_70)"
    using frase_70_limpa(1,8) by (simp add: frase_70_strip)
  then have f: "frases_srt 120 (frase_70 # replicate 9 frase_70) ([], []) =
        (replicate 9 frase_70, frase_70)"
    unfolding frases_srt_frase_70 by simp
  have "replicate 9 frase_70 @ [frase_70] = replicate 10 frase_70"
    by (simp add: eval_nat_numeral)
  then show ?thesis
    using frase_70_limpa(1)
    by (simp add: dividir_texto_segmentos_srt_def l n r f guardar_def del: frases_srt.simps)
qed

subsection \<open>Entries that overlap\<close>

text \<open>
  C6. The claim is that the entries of the track never overlap: the end of an entry is at
  most the start of the next. The code computes the start of entry \<open>i\<close> of a slide as
  \<open>tempo_atual + i * d\<close> and its end as that start plus \<open>d\<close>, in floats, and the two
  roundings differ. With the default parameters (no audio, so the slide lasts the minimum
  of 3 seconds; segments of at most 120 characters), a slide whose narration is ten
  sentences of 70 characters has ten entries of \<open>3.0 / 10\<close> seconds each; entry 6 ends
  at 1.8000000000000000444 (the float nearest to 1.8) and entry 7 starts at
  1.7999999999999998224, before entry 6 has ended.
\<close>

theorem legendas_sobrepostas:
  "gerar_srt sem_audio (Some [slide_exemplo texto_dez_frases]) False (1/2) 3 120 2 =
     Some (srt_slide sem_audio False (1/2) 3 120 2 estado_inicial (slide_exemplo texto_dez_frases)) \<and>
   length (entradas (srt_slide sem_audio False (1/2) 3 120 2 estado_inicial
                       (slide_exemplo texto_dez_frases))) = 10 \<and>
   indice (entradas (srt_slide sem_audio False (1/2) 3 120 2 estado_inicial
                       (slide_exemplo texto_dez_frases)) ! 5) = 6 \<and>
   indice (entradas (srt_slide sem_audio False (1/2) 3 120 2 estado_inicial
                       (slide_exemplo texto_dez_frases)) ! 6) = 7 \<and>
   fim (entradas (srt_slide sem_audio False (1/2) 3 120 2 estado_inicial
                    (slide_exemplo texto_dez_frases)) ! 5) = 8106479329266893 / 2 ^ 52 \<and>
   inicio (entradas (srt_slide sem_audio False (1/2) 3 120 2 estado_inicial
                       (slide_exemplo texto_dez_frases)) ! 6) = 8106479329266892 / 2 ^ 52 \<and>
   inicio (entradas (srt_slide sem_audio False (1/2) 3 120 2 estado_inicial
                       (slide_exemplo texto_dez_frases)) ! 6)
     < fim (entradas (srt_slide sem_audio False (1/2) 3 120 2 estado_inicial
                        (slide_exemplo texto_dez_frases)) ! 5)"
proof -
  let ?st = "srt_slide sem_audio False (1/2) 3 120 2 estado_inicial (slide_exemplo texto_dez_frases)"
  let ?d = "5404319552844595 / 2 ^ 54 :: real"
  let ?segs = "replicate 10 frase_70"
  have g: "gerar_srt sem_audio (Some [slide_exemplo texto_dez_frases]) False (1/2) 3 120 2 = Some ?st"
    by (simp add: gerar_srt_def estado_inicial_def)
  have t: "texto_srt False (slide_exemplo texto_dez_frases) = texto_dez_frases"
    by (simp add: texto_srt_def slide_exemplo_def)
  have j: "texto_dez_frases = py_join '' '' (replicate (Suc 9) frase_70)"
    by (simp add: texto_dez_frases_def)
  have b: "py_strip texto_dez_frases \<noteq> []"
    unfolding j juntar_frases_strip using juntar_frases_pontas[of 9] by blast
  have d: "duracao_slide_srt sem_audio False (1/2) 3 (slide_exemplo texto_dez_frases) = 3"
    by (simp add: duracao_slide_srt_def slide_exemplo_def ou_zero_def)
  have q: "fdiv 3 10 = ?d"
    unfolding fdiv_def by (subst dbl_pos_eq[where a = 54]) (simp_all add: arredondar_par_def)
  have e: "entradas ?st = entradas_slide 0 1 ?d ?segs"
    unfolding srt_slide_entradas[of False "slide_exemplo texto_dez_frases", unfolded t, OF b]
      segmentos_dez_frases d
    by (simp add: q estado_inicial_def)
  have n: "length (entradas ?st) = 10" unfolding e by simp
  have e5: "entradas ?st ! 5 =
     \<lparr>indice = 1 + int 5, inicio = fadd 0 (fmul (real 5) ?d),
      fim = fadd (fadd 0 (fmul (real 5) ?d)) ?d,
      texto_formatado = formatar_texto_srt (?segs ! 5) 60\<rparr>"
    unfolding e by (rule entradas_slide_nth) simp
  have e6: "entradas ?st ! 6 =
     \<lparr>indice = 1 + int 6, inicio = fadd 0 (fmul (real 6) ?d),
      fim = fadd (fadd 0 (fmul (real 6) ?d)) ?d,
      texto_formatado = formatar_texto_srt (?segs ! 6) 60\<rparr>"
    unfolding e by (rule entradas_slide_nth) simp
  have m5: "fmul (real 5) ?d = 3 / 2"
    unfolding fmul_def by (subst dbl_pos_eq[where a = 52]) (simp_all add: arredondar_par_def)
  have a5: "fadd 0 (3 / 2) = 3 / 2"
    unfolding fadd_def by (subst dbl_pos_eq[where a = 52]) (simp_all add: arredondar_par_def)
  have f5: "fadd (3 / 2) ?d = 8106479329266893 / 2 ^ 52"
    unfolding fadd_def by (subst dbl_pos_eq[where a = 52]) (simp_all add: arredondar_par_def)
  have m6: "fmul (real 6) ?d = 8106479329266892 / 2 ^ 52"
    unfolding fmul_def by (subst dbl_pos_eq[where a = 52]) (simp_all add: arredondar_par_def)
  have a6: "fadd 0 (8106479329266892 / 2 ^ 52) = 8106479329266892 / 2 ^ 52"
    unfolding fadd_def by (subst dbl_pos_eq[where a = 52]) (simp_all add: arredondar_par_def)
  have i5: "indice (entradas ?st ! 5) = 6" unfolding e5 by simp
  have i6: "indice (entradas ?st ! 6) = 7" unfolding e6 by simp
  have fim5: "fim (entradas ?st ! 5) = 8106479329266893 / 2 ^ 52"
    unfolding e5 by (simp only: entrada_srt.simps m5 a5 f5)
  have ini6: "inicio (entradas ?st ! 6) = 8106479329266892 / 2 ^ 52"
    unfolding e6 by (simp only: entrada_srt.simps m6 a6)
  have lt: "inicio (entradas ?st ! 6) < fim (entradas ?st ! 5)"
    unfolding fim5 ini6 by simp
  from g n i5 i6 fim5 ini6 lt show ?thesis by blast
qed

end
